theory Spec2Isabelle
  imports Complex_Main "HOL-Library.AList" "HOL-Library.Sublist"
begin

section \<open>Python values used by \<^verbatim>\<open>gaudi/algorithms.py\<close>\<close>

text \<open>
  Exceptions are values. \<^verbatim>\<open>KeyboardInterrupt\<close> and \<^verbatim>\<open>SystemExit\<close> derive from
  \<^verbatim>\<open>BaseException\<close> only; every other constructor stands for a subclass of
  \<^verbatim>\<open>Exception\<close> (\<open>Exception msg\<close> is any such error raised by a collaborator).
\<close>

datatype exn =
    KeyboardInterrupt
  | SystemExit string
  | ZeroDivisionError
  | OverflowError
  | TypeError
  | IOError
  | OSError
  | Exception string

fun is_Exception :: "exn \<Rightarrow> bool" where
  "is_Exception KeyboardInterrupt = False"
| "is_Exception (SystemExit m) = False"
| "is_Exception e = True"

text \<open>The clause \<^verbatim>\<open>except (Exception, KeyboardInterrupt)\<close> of line 148.\<close>

fun caught_148 :: "exn \<Rightarrow> bool" where
  "caught_148 KeyboardInterrupt = True"
| "caught_148 e = is_Exception e"

text \<open>The clause \<^verbatim>\<open>except (IOError, OSError)\<close> of line 179.\<close>

fun caught_179 :: "exn \<Rightarrow> bool" where
  "caught_179 IOError = True"
| "caught_179 OSError = True"
| "caught_179 e = False"

text \<open>
  Numbers: Python's unbounded integers are \<open>int\<close>. The floats of the module (clock
  readings, probabilities, speeds, the progress percentage) are modelled by exact rationals:
  rounding is outside the model, the zero tests that decide whether a division raises are not.
  \<^verbatim>\<open>a / b\<close> is true division (\<^verbatim>\<open>from __future__ import division\<close>).
\<close>

definition py_div :: "rat \<Rightarrow> rat \<Rightarrow> exn + rat" where
  "py_div a b = (if b = 0 then Inl ZeroDivisionError else Inr (a / b))"

text \<open>\<^verbatim>\<open>int(x)\<close> truncates towards zero.\<close>

definition py_int :: "rat \<Rightarrow> int" where
  "py_int q = (if 0 \<le> q then \<lfloor>q\<rfloor> else \<lceil>q\<rceil>)"

text \<open>
  \<^verbatim>\<open>timedelta(seconds=s)\<close>, kept as its number of seconds; the constructor raises
  \<^verbatim>\<open>OverflowError\<close> when the normalised number of days leaves \<open>\<plusminus>999999999\<close>.
\<close>

definition timedelta :: "int \<Rightarrow> exn + int" where
  "timedelta s = (if \<bar>s div 86400\<bar> > 999999999 then Inl OverflowError else Inr s)"

subsection \<open>Strings and paths\<close>

definition lower_char :: "char \<Rightarrow> char" where
  "lower_char c =
     (let n = (of_char c :: nat) in if 65 \<le> n \<and> n \<le> 90 then char_of (n + 32) else c)"

definition lower :: "string \<Rightarrow> string" where
  "lower s = map lower_char s"

definition digit_char :: "nat \<Rightarrow> char" where
  "digit_char d = char_of (48 + d)"

fun str_nat :: "nat \<Rightarrow> string" where
  "str_nat n = (if n < 10 then [digit_char n] else str_nat (n div 10) @ [digit_char (n mod 10)])"

declare str_nat.simps [simp del]

definition str_int :: "int \<Rightarrow> string" where
  "str_int i = (if i < 0 then CHR ''-'' # str_nat (nat (- i)) else str_nat (nat i))"

text \<open>\<^verbatim>\<open>os.path.join(a, b)\<close> and \<^verbatim>\<open>os.path.basename(p)\<close> of \<^verbatim>\<open>posixpath\<close>.\<close>

definition join :: "string \<Rightarrow> string \<Rightarrow> string" where
  "join a b =
     (if b \<noteq> [] \<and> hd b = CHR ''/'' then b
      else if a = [] \<or> last a = CHR ''/'' then a @ b
      else a @ CHR ''/'' # b)"

definition basename :: "string \<Rightarrow> string" where
  "basename p = rev (takeWhile (\<lambda>c. c \<noteq> CHR ''/'') (rev p))"

section \<open>Data model\<close>

type_synonym fit = "rat list"

text \<open>
  One record of the logbook (the keyword arguments of \<^verbatim>\<open>logbook.record\<close>).
  \<open>progress\<close> and \<open>speed\<close> hold the numbers that the source formats with
  \<^verbatim>\<open>'{:.2f}%'\<close> and \<^verbatim>\<open>'{:.2f} ev/s'\<close>; \<open>eta\<close> is the \<^verbatim>\<open>timedelta\<close> in seconds;
  \<open>extra\<close> is the dictionary \<^verbatim>\<open>**record\<close> compiled by the statistics object.
\<close>

record logrec =
  gen :: int
  progress :: rat
  nevals :: int
  speed :: rat
  eta :: int
  extra :: "(string \<times> rat) list"

record logbook_t =
  header :: "string list"
  records :: "logrec list"

text \<open>
  Individuals are objects: the lists of the source hold references (type \<open>'i\<close>), and
  the objects themselves, together with everything else outside the function (clock, random
  state, archive contents, file system, terminal), live in a world \<open>'w\<close> that every
  effectful call takes and returns. A call that can raise returns the exception or its value.
\<close>

record ('i, 'w) toolbox_t =
  tb_map_evaluate :: "'i list \<Rightarrow> 'w \<Rightarrow> (fit list \<times> exn option) \<times> 'w"
  select :: "'i list \<Rightarrow> int \<Rightarrow> 'w \<Rightarrow> (exn + 'i list) \<times> 'w"

record ('i, 'w) statistics_t =
  stats_fields :: "string list"
  compile :: "'i list \<Rightarrow> 'w \<Rightarrow> (exn + (string \<times> rat) list) \<times> 'w"

record ('i, 'w) halloffame_t =
  update :: "'i list \<Rightarrow> 'w \<Rightarrow> exn option \<times> 'w"
  items :: "'w \<Rightarrow> 'i list"

record output_t =
  path :: string
  name :: string
  check_every :: int

record objective_t =
  obj_name :: string
  obj_module :: string

record cfg_t =
  cfg_output :: output_t
  objectives :: "objective_t list"

record manifest =
  GAUDI_objectives :: "string list"
  GAUDI_results :: "(string \<times> fit) list"

datatype log_call = Log nat string | Error exn | Warn string

text \<open>
  What the module imports or reaches through its arguments' attributes:
  \<^verbatim>\<open>time\<close>, \<^verbatim>\<open>deap.algorithms.varOr\<close>, the attributes and methods of an individual
  (\<^verbatim>\<open>fitness.valid\<close>, \<^verbatim>\<open>fitness.values\<close>, \<^verbatim>\<open>unexpress\<close>, \<^verbatim>\<open>write\<close>), the module
  logger, the property \<^verbatim>\<open>logbook.stream\<close>, \<^verbatim>\<open>raw_input\<close>, \<^verbatim>\<open>os.mkdir\<close>, and the
  writing of the manifest file (lines 185 to 188: \<^verbatim>\<open>open\<close>, header line,
  \<^verbatim>\<open>yaml.safe_dump\<close>).
\<close>

record ('i, 'w) env =
  time :: "'w \<Rightarrow> rat \<times> 'w"
  varOr :: "'i list \<Rightarrow> ('i, 'w) toolbox_t \<Rightarrow> int \<Rightarrow> rat \<Rightarrow> rat \<Rightarrow> 'w \<Rightarrow> (exn + 'i list) \<times> 'w"
  fitness_valid :: "'w \<Rightarrow> 'i \<Rightarrow> bool"
  fitness_values :: "'w \<Rightarrow> 'i \<Rightarrow> fit"
  set_fitness_values :: "'i \<Rightarrow> fit \<Rightarrow> 'w \<Rightarrow> 'w"
  unexpress :: "'i \<Rightarrow> 'w \<Rightarrow> exn option \<times> 'w"
  ind_write :: "'i \<Rightarrow> nat \<Rightarrow> string \<Rightarrow> 'w \<Rightarrow> (exn + string) \<times> 'w"
  logger :: "log_call \<Rightarrow> 'w \<Rightarrow> 'w"
  logbook_stream :: "logbook_t \<Rightarrow> 'w \<Rightarrow> (exn + string) \<times> 'w"
  raw_input :: "string \<Rightarrow> 'w \<Rightarrow> (exn + string) \<times> 'w"
  os_mkdir :: "string \<Rightarrow> 'w \<Rightarrow> exn option \<times> 'w"
  write_gaudi_output :: "string \<Rightarrow> manifest \<Rightarrow> 'w \<Rightarrow> exn option \<times> 'w"

text \<open>The arguments of \<^verbatim>\<open>ea_mu_plus_lambda\<close> other than the population list.\<close>

record ('i, 'w) args =
  toolbox :: "('i, 'w) toolbox_t"
  mu :: int
  lambda' :: int
  cxpb :: rat
  mutpb :: rat
  ngen :: int
  cfg :: cfg_t
  stats :: "('i, 'w) statistics_t option"
  halloffame :: "('i, 'w) halloffame_t option"
  verbose :: bool

text \<open>
  The local variables that live across statements: \<open>population\<close> is the caller's list,
  replaced in place by line 132; \<open>population'\<close> is the copy of lines 86 and 162.
\<close>

record 'i locals =
  population :: "'i list"
  population' :: "'i list"
  logbook :: logbook_t
  performed_evals :: int
  estimated_evals :: rat

section \<open>The evaluation steps shared by generation 0 and the loop\<close>

text \<open>Lines 93-94 and 124-125: \<^verbatim>\<open>for ind, fit in zip(...): ind.fitness.values = fit\<close>.\<close>

fun assign_fitnesses :: "('i, 'w) env \<Rightarrow> ('i \<times> fit) list \<Rightarrow> 'w \<Rightarrow> 'w" where
  "assign_fitnesses E [] w = w"
| "assign_fitnesses E ((ind, f) # rest) w = assign_fitnesses E rest (set_fitness_values E ind f w)"

text \<open>
  Lines 91-94 and 122-125. \<^verbatim>\<open>toolbox.map\<close> yields a sequence of fitnesses and may raise
  after some of them (a lazy map raises while line 93 or 124 consumes it): the fitnesses that
  came out are assigned, then the exception surfaces. The value is \<^verbatim>\<open>invalid_ind\<close>.
\<close>

definition evaluate_invalid ::
  "('i, 'w) env \<Rightarrow> ('i, 'w) toolbox_t \<Rightarrow> 'i list \<Rightarrow> 'w \<Rightarrow> (exn + 'i list) \<times> 'w" where
  "evaluate_invalid E tb inds w =
     (let invalid_ind = filter (\<lambda>ind. \<not> fitness_valid E w ind) inds in
      case tb_map_evaluate tb invalid_ind w of
        ((fitnesses, raised), w1) \<Rightarrow>
          (let w2 = assign_fitnesses E (zip invalid_ind fitnesses) w1 in
           case raised of
             Some e \<Rightarrow> (Inl e, w2)
           | None \<Rightarrow> (Inr invalid_ind, w2)))"

text \<open>Lines 96-97 and 128-129: \<^verbatim>\<open>if halloffame is not None: halloffame.update(...)\<close>.\<close>

definition update_halloffame ::
  "('i, 'w) halloffame_t option \<Rightarrow> 'i list \<Rightarrow> 'w \<Rightarrow> exn option \<times> 'w" where
  "update_halloffame hof inds w =
     (case hof of None \<Rightarrow> (None, w) | Some h \<Rightarrow> update h inds w)"

text \<open>Lines 99 and 142: \<^verbatim>\<open>stats.compile(population) if stats is not None else {}\<close>.\<close>

definition compile_stats ::
  "('i, 'w) statistics_t option \<Rightarrow> 'i list \<Rightarrow> 'w \<Rightarrow> (exn + (string \<times> rat) list) \<times> 'w" where
  "compile_stats st inds w =
     (case st of None \<Rightarrow> (Inr [], w) | Some s \<Rightarrow> compile s inds w)"

text \<open>Lines 106 and 141: \<^verbatim>\<open>timedelta(seconds=int(remaining_evals / speed))\<close>.\<close>

definition remaining_time :: "rat \<Rightarrow> rat \<Rightarrow> exn + int" where
  "remaining_time remaining_evals sp =
     (case py_div remaining_evals sp of
        Inl e \<Rightarrow> Inl e
      | Inr q \<Rightarrow> timedelta (py_int q))"

text \<open>
  Lines 108 and 144: \<^verbatim>\<open>logbook.record(gen=..., ..., **record)\<close>. A key of \<^verbatim>\<open>record\<close>
  equal to one of the five keywords makes the call itself a \<^verbatim>\<open>TypeError\<close>.
\<close>

definition record_keywords :: "string list" where
  "record_keywords = [''gen'', ''progress'', ''nevals'', ''speed'', ''eta'']"

definition logbook_record :: "logbook_t \<Rightarrow> logrec \<Rightarrow> exn + logbook_t" where
  "logbook_record lb r =
     (if list_ex (\<lambda>k. k \<in> set record_keywords) (map fst (extra r)) then Inl TypeError
      else Inr (lb\<lparr>records := records lb @ [r]\<rparr>))"

text \<open>
  Lines 110-111 and 146-147: \<^verbatim>\<open>logger.log(100, logbook.stream)\<close>. Rendering the
  logbook is a call into the logbook object and may raise; an interrupt delivered while the
  report is produced surfaces here too.
\<close>

definition report :: "('i, 'w) env \<Rightarrow> logbook_t \<Rightarrow> 'w \<Rightarrow> exn option \<times> 'w" where
  "report E lb w =
     (case logbook_stream E lb w of
        (Inl e, w1) \<Rightarrow> (Some e, w1)
      | (Inr text, w1) \<Rightarrow> (None, logger E (Log 100 text) w1))"

section \<open>Generation 0 (lines 85 to 111)\<close>

text \<open>
  Nothing of this part is inside a \<^verbatim>\<open>try\<close>: an exception leaves the function. The
  value on success is the local variables as they stand before the loop.
\<close>

text \<open>Lines 85 to 99: the value on success is \<^verbatim>\<open>(t0, invalid_ind, record)\<close>.\<close>

definition evaluate_population ::
  "('i, 'w) env \<Rightarrow> ('i, 'w) args \<Rightarrow> 'i list \<Rightarrow> 'w
     \<Rightarrow> (exn + rat \<times> 'i list \<times> (string \<times> rat) list) \<times> 'w" where
  "evaluate_population E A pop w0 =
     (case time E w0 of (t0, w1) \<Rightarrow>
     (case evaluate_invalid E (toolbox A) pop w1 of
        (Inl e, w2) \<Rightarrow> (Inl e, w2)
      | (Inr invalid_ind, w2) \<Rightarrow>
     (case update_halloffame (halloffame A) pop w2 of
        (Some e, w3) \<Rightarrow> (Inl e, w3)
      | (None, w3) \<Rightarrow>
     (case compile_stats (stats A) pop w3 of
        (Inl e, w4) \<Rightarrow> (Inl e, w4)
      | (Inr rec, w4) \<Rightarrow> (Inr (t0, invalid_ind, rec), w4)))))"

definition initial_logbook :: "('i, 'w) args \<Rightarrow> logbook_t" where
  "initial_logbook A =
     \<lparr>header = [''gen'', ''progress'', ''nevals'', ''speed'', ''eta'']
        @ (case stats A of Some s \<Rightarrow> stats_fields s | None \<Rightarrow> []),
      records = []\<rparr>"

definition initial_generation ::
  "('i, 'w) env \<Rightarrow> ('i, 'w) args \<Rightarrow> 'i list \<Rightarrow> 'w \<Rightarrow> (exn + 'i locals) \<times> 'w" where
  "initial_generation E A pop w0 =
     (case evaluate_population E A pop w0 of
        (Inl e, w1) \<Rightarrow> (Inl e, w1)
      | (Inr (t0, invalid_ind, rec), w1) \<Rightarrow>
     (let n = int (length invalid_ind) in
     (case time E w1 of (t1, w2) \<Rightarrow>
     (case py_div (of_int n) (t1 - t0) of
        Inl e \<Rightarrow> (Inl e, w2)
      | Inr sp \<Rightarrow>
     (let performed = n;
          estimated = of_int ((ngen A + 1) * lambda' A) * (cxpb A + mutpb A);
          remaining_evals = estimated - of_int performed in
     (case remaining_time remaining_evals sp of
        Inl e \<Rightarrow> (Inl e, w2)
      | Inr remaining \<Rightarrow>
     (case py_div 100 (of_int (ngen A + 1)) of
        Inl e \<Rightarrow> (Inl e, w2)
      | Inr prog \<Rightarrow>
     (case logbook_record (initial_logbook A)
             \<lparr>gen = 0, progress = prog, nevals = n, speed = sp, eta = remaining, extra = rec\<rparr> of
        Inl e \<Rightarrow> (Inl e, w2)
      | Inr lb \<Rightarrow>
     (let l = \<lparr>population = pop, population' = pop, logbook = lb,
               performed_evals = performed, estimated_evals = estimated\<rparr> in
      if verbose A then
        (case report E lb w2 of
           (Some e, w3) \<Rightarrow> (Inl e, w3)
         | (None, w3) \<Rightarrow> (Inr l, w3))
      else (Inr l, w2))))))))))"

section \<open>The body of one generation (lines 116 to 147)\<close>

text \<open>
  Lines 117 to 132: vary, evaluate, update the archive, select. The value on success is
  \<^verbatim>\<open>(t0, t1, invalid_ind, selected)\<close>; line 132 itself, which stores \<open>selected\<close> into
  the caller's list, is done by \<open>gen_body\<close>.
\<close>

definition vary_evaluate_select ::
  "('i, 'w) env \<Rightarrow> ('i, 'w) args \<Rightarrow> 'i list \<Rightarrow> 'w
     \<Rightarrow> (exn + rat \<times> rat \<times> 'i list \<times> 'i list) \<times> 'w" where
  "vary_evaluate_select E A pop w0 =
     (case time E w0 of (t0, w1) \<Rightarrow>
     (case varOr E pop (toolbox A) (lambda' A) (cxpb A) (mutpb A) w1 of
        (Inl e, w2) \<Rightarrow> (Inl e, w2)
      | (Inr offspring, w2) \<Rightarrow>
     (case time E w2 of (t1, w3) \<Rightarrow>
     (case evaluate_invalid E (toolbox A) offspring w3 of
        (Inl e, w4) \<Rightarrow> (Inl e, w4)
      | (Inr invalid_ind, w4) \<Rightarrow>
     (case update_halloffame (halloffame A) offspring w4 of
        (Some e, w5) \<Rightarrow> (Inl e, w5)
      | (None, w5) \<Rightarrow>
     (case select (toolbox A) (pop @ offspring) (mu A) w5 of
        (Inl e, w6) \<Rightarrow> (Inl e, w6)
      | (Inr selected, w6) \<Rightarrow> (Inr (t0, t1, invalid_ind, selected), w6)))))))"

text \<open>
  Lines 135 to 145, up to and including \<^verbatim>\<open>logbook.record\<close>. The locals come back also
  when a line raises: \<open>performed_evals\<close> has been increased once line 139 has run.
\<close>

definition update_statistics ::
  "('i, 'w) env \<Rightarrow> ('i, 'w) args \<Rightarrow> int \<Rightarrow> rat \<Rightarrow> rat \<Rightarrow> 'i list \<Rightarrow> 'i locals \<Rightarrow> 'w
     \<Rightarrow> (exn option \<times> 'i locals) \<times> 'w" where
  "update_statistics E A g t0 t1 invalid_ind l0 w0 =
     (let n = int (length invalid_ind) in
     (case time E w0 of (t2, w1) \<Rightarrow>
     (case py_div (of_int n) (t2 - t1) of
        Inl e \<Rightarrow> ((Some e, l0), w1)
      | Inr ev_speed \<Rightarrow>
     (case py_div (of_int n) (t2 - t0) of
        Inl e \<Rightarrow> ((Some e, l0), w1)
      | Inr sp \<Rightarrow>
     (let l1 = l0\<lparr>performed_evals := performed_evals l0 + n\<rparr>;
          remaining_evals = estimated_evals l1 - of_int (performed_evals l1) in
     (case remaining_time remaining_evals sp of
        Inl e \<Rightarrow> ((Some e, l1), w1)
      | Inr remaining \<Rightarrow>
     (case compile_stats (stats A) (population l1) w1 of
        (Inl e, w2) \<Rightarrow> ((Some e, l1), w2)
      | (Inr rec, w2) \<Rightarrow>
     (case py_div (of_int (100 * (g + 1))) (of_int (ngen A + 1)) of
        Inl e \<Rightarrow> ((Some e, l1), w2)
      | Inr prog \<Rightarrow>
     (case logbook_record (logbook l1)
             \<lparr>gen = g, progress = prog, nevals = n, speed = ev_speed, eta = remaining,
              extra = rec\<rparr> of
        Inl e \<Rightarrow> ((Some e, l1), w2)
      | Inr lb \<Rightarrow> ((None, l1\<lparr>logbook := lb\<rparr>), w2))))))))))"

text \<open>
  Lines 117 to 145: the \<^verbatim>\<open>try\<close> suite of generation \<open>g\<close> up to and including
  \<^verbatim>\<open>logbook.record\<close>. Line 132 stores the selection into the caller's list.
\<close>

definition generation_steps ::
  "('i, 'w) env \<Rightarrow> ('i, 'w) args \<Rightarrow> int \<Rightarrow> 'i locals \<Rightarrow> 'w \<Rightarrow> (exn option \<times> 'i locals) \<times> 'w" where
  "generation_steps E A g l w0 =
     (case vary_evaluate_select E A (population l) w0 of
        (Inl e, w) \<Rightarrow> ((Some e, l), w)
      | (Inr (t0, t1, invalid_ind, selected), w) \<Rightarrow>
          update_statistics E A g t0 t1 invalid_ind (l\<lparr>population := selected\<rparr>) w)"

text \<open>
  The whole \<^verbatim>\<open>try\<close> suite (lines 116 to 147). The result carries the exception
  raised, if any, and the local variables at that moment, which the \<^verbatim>\<open>except\<close> clause
  and the \<^verbatim>\<open>return\<close> read.
\<close>

definition gen_body ::
  "('i, 'w) env \<Rightarrow> ('i, 'w) args \<Rightarrow> int \<Rightarrow> 'i locals \<Rightarrow> 'w \<Rightarrow> (exn option \<times> 'i locals) \<times> 'w" where
  "gen_body E A g l w0 =
     (case generation_steps E A g l w0 of
        ((Some e, l1), w) \<Rightarrow> ((Some e, l1), w)
      | ((None, l1), w) \<Rightarrow>
          if verbose A then
            (case report E (logbook l1) w of
               (Some e, w) \<Rightarrow> ((Some e, l1), w)
             | (None, w) \<Rightarrow> ((None, l1), w))
          else ((None, l1), w))"

section \<open>The interruption handler (lines 148 to 158)\<close>

text \<open>Lines 153-157: every \<^verbatim>\<open>Exception\<close> raised by \<^verbatim>\<open>unexpress\<close> is passed over.\<close>

fun unexpress_all :: "('i, 'w) env \<Rightarrow> 'i list \<Rightarrow> 'w \<Rightarrow> exn option \<times> 'w" where
  "unexpress_all E [] w = (None, w)"
| "unexpress_all E (individual # rest) w =
     (case unexpress E individual w of
        (None, w1) \<Rightarrow> unexpress_all E rest w1
      | (Some e, w1) \<Rightarrow> if is_Exception e then unexpress_all E rest w1 else (Some e, w1))"

definition prompt :: string where
  "prompt = CHR 0x0A # ''Interruption detected. Write results so far? (y/N): ''"

text \<open>
  The value \<open>None\<close> is the \<^verbatim>\<open>break\<close> of line 158; \<open>Some e\<close> is an exception that
  leaves the handler, and with it the function: the \<^verbatim>\<open>SystemExit\<close> of line 152, or
  whatever \<^verbatim>\<open>raw_input\<close> or \<^verbatim>\<open>unexpress\<close> raise beyond what line 156 catches.
\<close>

definition interruption_handler ::
  "('i, 'w) env \<Rightarrow> exn \<Rightarrow> 'i locals \<Rightarrow> 'w \<Rightarrow> exn option \<times> 'w" where
  "interruption_handler E e l w0 =
     (let w = logger E (Error e) w0 in
      case raw_input E prompt w of
        (Inl e1, w) \<Rightarrow> (Some e1, w)
      | (Inr answer, w) \<Rightarrow>
          if lower answer \<notin> set [''y'', ''yes''] then (Some (SystemExit ''Ok, bye!''), w)
          else unexpress_all E (population l) w)"

section \<open>\<^verbatim>\<open>dump_population\<close> (lines 170 to 188)\<close>

text \<open>
  Lines 181-183. The dictionary \<^verbatim>\<open>results['GAUDI.results']\<close> is an association list
  with one entry per key: storing under a key already present replaces its value.
\<close>

fun write_individuals ::
  "('i, 'w) env \<Rightarrow> string \<Rightarrow> nat \<Rightarrow> 'i list \<Rightarrow> (string \<times> fit) list \<Rightarrow> 'w
     \<Rightarrow> (exn + (string \<times> fit) list) \<times> 'w" where
  "write_individuals E basepath i [] results w = (Inr results, w)"
| "write_individuals E basepath i (ind # rest) results w =
     (case ind_write E ind i basepath w of
        (Inl e, w1) \<Rightarrow> (Inl e, w1)
      | (Inr filename, w1) \<Rightarrow>
          write_individuals E basepath (Suc i) rest
            (AList.update (basename filename) (fitness_values E w1 ind) results) w1)"

text \<open>
  Lines 174-180. \<^verbatim>\<open>basepath\<close> is rebound before \<^verbatim>\<open>os.mkdir\<close> runs, so it names the
  subdirectory also when the creation fails with an \<^verbatim>\<open>IOError\<close> or \<^verbatim>\<open>OSError\<close>.
\<close>

definition resolve_basepath ::
  "('i, 'w) env \<Rightarrow> cfg_t \<Rightarrow> string option \<Rightarrow> 'w \<Rightarrow> (exn + string) \<times> 'w" where
  "resolve_basepath E c subdir w =
     (case subdir of
        None \<Rightarrow> (Inr (path (cfg_output c)), w)
      | Some d \<Rightarrow>
          (let basepath = join (path (cfg_output c)) d in
           case os_mkdir E basepath w of
             (None, w1) \<Rightarrow> (Inr basepath, w1)
           | (Some e, w1) \<Rightarrow> if caught_179 e then (Inr basepath, w1) else (Inl e, w1)))"

definition dump_population ::
  "('i, 'w) env \<Rightarrow> 'i list \<Rightarrow> cfg_t \<Rightarrow> string option \<Rightarrow> 'w \<Rightarrow> exn option \<times> 'w" where
  "dump_population E pop c subdir w0 =
     (let w1 = logger E (Log 100 (''Writing '' @ str_nat (length pop) @ '' results to disk'')) w0;
          objs = map (\<lambda>obj. obj_name obj @ '' ('' @ obj_module obj @ '')'') (objectives c) in
     (case resolve_basepath E c subdir w1 of
        (Inl e, w2) \<Rightarrow> (Some e, w2)
      | (Inr basepath, w2) \<Rightarrow>
     (case write_individuals E basepath 0 pop [] w2 of
        (Inl e, w3) \<Rightarrow> (Some e, w3)
      | (Inr results, w3) \<Rightarrow>
          write_gaudi_output E (join basepath (name (cfg_output c) @ ''.gaudi-output''))
            \<lparr>GAUDI_objectives = objs, GAUDI_results = results\<rparr> w3)))"

section \<open>The \<^verbatim>\<open>else\<close> clause of the loop (lines 159 to 167)\<close>

text \<open>
  The test of line 163. The archive is an object with a length (line 171 takes
  \<^verbatim>\<open>len\<close> of it), so it is true when it is not \<^verbatim>\<open>None\<close> and holds at least one
  individual; the cadence is true when it is not zero (a cadence of \<^verbatim>\<open>None\<close> is
  modelled by 0, which it equals in this test).
\<close>

definition checkpoint_due :: "('i, 'w) args \<Rightarrow> int \<Rightarrow> 'w \<Rightarrow> bool" where
  "checkpoint_due A g w =
     (case halloffame A of
        None \<Rightarrow> False
      | Some h \<Rightarrow>
          items h w \<noteq> [] \<and> check_every (cfg_output (cfg A)) \<noteq> 0
          \<and> g mod check_every (cfg_output (cfg A)) = 0)"

definition write_checkpoint :: "('i, 'w) env \<Rightarrow> ('i, 'w) args \<Rightarrow> int \<Rightarrow> 'w \<Rightarrow> exn option \<times> 'w" where
  "write_checkpoint E A g w =
     (case halloffame A of
        None \<Rightarrow> (None, w)
      | Some h \<Rightarrow> dump_population E (items h w) (cfg A) (Some (''check'' @ str_int g)) w)"

definition else_clause ::
  "('i, 'w) env \<Rightarrow> ('i, 'w) args \<Rightarrow> int \<Rightarrow> 'i locals \<Rightarrow> 'w \<Rightarrow> (exn option \<times> 'i locals) \<times> 'w" where
  "else_clause E A g l0 w =
     (let l = l0\<lparr>population' := population l0\<rparr> in
      if checkpoint_due A g w then
        (case write_checkpoint E A g w of
           (None, w1) \<Rightarrow> ((None, l), w1)
         | (Some e, w1) \<Rightarrow>
             if is_Exception e
             then ((None, l),
                   logger E (Warn (''Could not write checkpoing for gen #'' @ str_int g)) w1)
             else ((Some e, l), w1))
      else ((None, l), w))"

section \<open>The generational loop and \<^verbatim>\<open>ea_mu_plus_lambda\<close>\<close>

datatype flow = Exhausted | Broke | Raised exn

text \<open>
  \<^verbatim>\<open>for gen in xrange(1, ngen + 1)\<close> over the list of the generations still to run.
  \<open>Exhausted\<close>: the list ran out; \<open>Broke\<close>: the \<^verbatim>\<open>break\<close> of line 158;
  \<open>Raised e\<close>: an exception left the loop, from the handler, from an exception that
  line 148 does not catch, or from the \<^verbatim>\<open>else\<close> clause.
\<close>

fun generations ::
  "('i, 'w) env \<Rightarrow> ('i, 'w) args \<Rightarrow> int list \<Rightarrow> 'i locals \<Rightarrow> 'w \<Rightarrow> (flow \<times> 'i locals) \<times> 'w" where
  "generations E A [] l w = ((Exhausted, l), w)"
| "generations E A (g # gs) l w =
     (case gen_body E A g l w of
        ((Some e, l1), w1) \<Rightarrow>
          if caught_148 e then
            (case interruption_handler E e l1 w1 of
               (Some e1, w2) \<Rightarrow> ((Raised e1, l1), w2)
             | (None, w2) \<Rightarrow> ((Broke, l1), w2))
          else ((Raised e, l1), w1)
      | ((None, l1), w1) \<Rightarrow>
          (case else_clause E A g l1 w1 of
             ((Some e, l2), w2) \<Rightarrow> ((Raised e, l2), w2)
           | ((None, l2), w2) \<Rightarrow> generations E A gs l2 w2))"

text \<open>
  Leaving the loop: an exception propagates, and both the exhausted loop and the
  \<^verbatim>\<open>break\<close> reach \<^verbatim>\<open>return population_, logbook\<close> (line 168). The value is the
  exception or the returned pair, then the caller's list as the function leaves it (line 132
  assigns to its slice), then the world.
\<close>

definition leave_loop ::
  "(flow \<times> 'i locals) \<times> 'w \<Rightarrow> (exn + 'i list \<times> logbook_t) \<times> 'i list \<times> 'w" where
  "leave_loop r =
     (case r of
        ((Raised e, l), w) \<Rightarrow> (Inl e, population l, w)
      | ((Exhausted, l), w) \<Rightarrow> (Inr (population' l, logbook l), population l, w)
      | ((Broke, l), w) \<Rightarrow> (Inr (population' l, logbook l), population l, w))"

definition ea_mu_plus_lambda ::
  "('i, 'w) env \<Rightarrow> 'i list \<Rightarrow> ('i, 'w) args \<Rightarrow> 'w
     \<Rightarrow> (exn + 'i list \<times> logbook_t) \<times> 'i list \<times> 'w" where
  "ea_mu_plus_lambda E pop A w0 =
     (case initial_generation E A pop w0 of
        (Inl e, w) \<Rightarrow> (Inl e, pop, w)
      | (Inr l0, w) \<Rightarrow> leave_loop (generations E A [1..ngen A] l0 w))"

text \<open>
  The locals and the world with which the run enters generation \<open>g\<close>: generation 0 and
  the generations \<open>1\<close> to \<open>g - 1\<close> have completed without an exception.
\<close>

definition start_of_generation ::
  "('i, 'w) env \<Rightarrow> 'i list \<Rightarrow> ('i, 'w) args \<Rightarrow> 'w \<Rightarrow> int \<Rightarrow> ('i locals \<times> 'w) option" where
  "start_of_generation E pop A w0 g =
     (case initial_generation E A pop w0 of
        (Inl e, w) \<Rightarrow> None
      | (Inr l0, w) \<Rightarrow>
          (case generations E A [1..g - 1] l0 w of
             ((Exhausted, l), w1) \<Rightarrow> Some (l, w1)
           | ((Broke, l), w1) \<Rightarrow> None
           | ((Raised e, l), w1) \<Rightarrow> None))"

section \<open>Test doubles\<close>

text \<open>
  A small concrete world and deterministic stand-ins for the collaborators, on which the
  functions above run. Individuals are numbered; the world lists those whose fitness is valid.
\<close>

record tworld =
  tw_valid :: "nat list"
  tw_clock :: rat
  tw_fresh :: nat
  tw_batches :: nat
  tw_archive :: "nat list"
  tw_log :: "log_call list"
  tw_dirs :: "string list"
  tw_files :: "(string \<times> manifest) list"

text \<open>
  What a scenario fixes: the clock's step per reading, the evaluation batch that raises (if
  any), the length of the logbook whose report is interrupted (if any), the answer typed at
  the prompt, the artifact name chosen by \<^verbatim>\<open>write\<close> for an index, whether writing the
  manifest fails, and the capacity of the archive.
\<close>

record scenario =
  sc_tick :: rat
  sc_fail_batch :: "nat option"
  sc_fail_report :: "nat option"
  sc_answer :: string
  sc_artifact :: "nat \<Rightarrow> string"
  sc_fail_manifest :: bool
  sc_capacity :: nat

definition stub_env :: "scenario \<Rightarrow> (nat, tworld) env" where
  "stub_env sc =
     \<lparr>time = (\<lambda>w. (tw_clock w, w\<lparr>tw_clock := tw_clock w + sc_tick sc\<rparr>)),
      varOr = (\<lambda>pop tb lam cx mt w.
         if 1 < cx + mt then (Inl (Exception ''The sum of the probabilities must be <= 1.0''), w)
         else
           (let children = map (\<lambda>k. tw_fresh w + k) [0..<nat lam] in
            (Inr children,
             w\<lparr>tw_fresh := tw_fresh w + nat lam,
               tw_valid := filter (\<lambda>c. c mod 2 = 0) children @ tw_valid w\<rparr>))),
      fitness_valid = (\<lambda>w i. i \<in> set (tw_valid w)),
      fitness_values = (\<lambda>w i. if i \<in> set (tw_valid w) then [of_nat i] else []),
      set_fitness_values = (\<lambda>i f w. w\<lparr>tw_valid := i # tw_valid w\<rparr>),
      unexpress = (\<lambda>i w. (if i mod 2 = 0 then Some (Exception ''not expressed'') else None, w)),
      ind_write = (\<lambda>i k p w. (Inr (join p (sc_artifact sc k)), w)),
      logger = (\<lambda>c w. w\<lparr>tw_log := tw_log w @ [c]\<rparr>),
      logbook_stream = (\<lambda>lb w.
         if sc_fail_report sc = Some (length (records lb)) then (Inl KeyboardInterrupt, w)
         else (Inr (str_nat (length (records lb)) @ '' records''), w)),
      raw_input = (\<lambda>p w. (Inr (sc_answer sc), w)),
      os_mkdir = (\<lambda>p w.
         if p \<in> set (tw_dirs w) then (Some OSError, w)
         else (None, w\<lparr>tw_dirs := p # tw_dirs w\<rparr>)),
      write_gaudi_output = (\<lambda>p m w.
         if sc_fail_manifest sc then (Some IOError, w)
         else (None, w\<lparr>tw_files := tw_files w @ [(p, m)]\<rparr>))\<rparr>"

definition stub_toolbox :: "scenario \<Rightarrow> (nat, tworld) toolbox_t" where
  "stub_toolbox sc =
     \<lparr>tb_map_evaluate = (\<lambda>inds w.
         if sc_fail_batch sc = Some (tw_batches w)
         then (([], Some (Exception ''evaluation failed'')), w\<lparr>tw_batches := tw_batches w + 1\<rparr>)
         else ((map (\<lambda>i. [of_nat i]) inds, None), w\<lparr>tw_batches := tw_batches w + 1\<rparr>)),
      select = (\<lambda>pool k w.
         if k < 0 \<or> int (length pool) < k then (Inl (Exception ''too few individuals''), w)
         else (Inr (drop (length pool - nat k) pool), w))\<rparr>"

definition stub_halloffame :: "scenario \<Rightarrow> (nat, tworld) halloffame_t" where
  "stub_halloffame sc =
     \<lparr>update = (\<lambda>inds w. (None, w\<lparr>tw_archive := take (sc_capacity sc) (inds @ tw_archive w)\<rparr>)),
      items = tw_archive\<rparr>"

definition stub_cfg :: "int \<Rightarrow> cfg_t" where
  "stub_cfg every =
     \<lparr>cfg_output = \<lparr>path = ''out'', name = ''job'', check_every = every\<rparr>,
      objectives = [\<lparr>obj_name = ''contacts'', obj_module = ''gaudi.objectives.contacts''\<rparr>]\<rparr>"

definition stub_args :: "scenario \<Rightarrow> int \<Rightarrow> int \<Rightarrow> (nat, tworld) args" where
  "stub_args sc n every =
     \<lparr>toolbox = stub_toolbox sc, mu = 2, lambda' = 3, cxpb = 1 / 2, mutpb = 3 / 10,
      ngen = n, cfg = stub_cfg every, stats = None,
      halloffame = Some (stub_halloffame sc), verbose = True\<rparr>"

definition world0 :: tworld where
  "world0 =
     \<lparr>tw_valid = [], tw_clock = 0, tw_fresh = 2, tw_batches = 0, tw_archive = [],
      tw_log = [], tw_dirs = [], tw_files = []\<rparr>"

definition plain :: scenario where
  "plain =
     \<lparr>sc_tick = 1, sc_fail_batch = None, sc_fail_report = None, sc_answer = ''Yes'',
      sc_artifact = (\<lambda>k. ''job__'' @ str_nat k @ ''.zip''), sc_fail_manifest = False,
      sc_capacity = 2\<rparr>"

text \<open>The scenarios used below; each differs from \<open>plain\<close> in one respect.\<close>

definition failing_evaluation :: scenario where
  "failing_evaluation = plain\<lparr>sc_fail_batch := Some 2\<rparr>"

definition declined :: scenario where
  "declined = plain\<lparr>sc_fail_batch := Some 2, sc_answer := ''n''\<rparr>"

definition interrupted_report :: scenario where
  "interrupted_report = plain\<lparr>sc_fail_report := Some 2\<rparr>"

definition frozen_clock :: scenario where
  "frozen_clock = plain\<lparr>sc_tick := 0\<rparr>"

definition same_name :: scenario where
  "same_name = plain\<lparr>sc_artifact := (\<lambda>k. ''job.zip'')\<rparr>"



section \<open>Contracts and properties named by the claims\<close>

text \<open>The contract of \<^verbatim>\<open>toolbox.select\<close>: asked for \<open>k\<close> individuals, it returns \<open>k\<close>.\<close>

definition select_exact :: "('i, 'w) toolbox_t \<Rightarrow> bool" where
  "select_exact tb =
     (\<forall>pool k w r w1. select tb pool k w = (Inr r, w1) \<longrightarrow> int (length r) = k)"

text \<open>
  Lines 107 and 143 computed the progress of the record as \<^verbatim>\<open>100*(gen+1)/(ngen+1)\<close>
  without a \<^verbatim>\<open>ZeroDivisionError\<close>.
\<close>

definition progress_ok :: "('i, 'w) args \<Rightarrow> logrec \<Rightarrow> bool" where
  "progress_ok A r =
     (py_div (of_int (100 * (gen r + 1))) (of_int (ngen A + 1)) = Inr (progress r))"

section \<open>Facts about one generation\<close>

lemma update_statistics_None:
  assumes "update_statistics E A g t0 t1 ivs l w = ((None, l1), w1)"
  shows "\<exists>r. l1 = l\<lparr>performed_evals := performed_evals l + int (length ivs),
                     logbook := (logbook l)\<lparr>records := records (logbook l) @ [r]\<rparr>\<rparr>
             \<and> gen r = g \<and> nevals r = int (length ivs)
             \<and> py_div (of_int (100 * (g + 1))) (of_int (ngen A + 1)) = Inr (progress r)"
  using assms
  by (auto simp: update_statistics_def Let_def logbook_record_def
           split: prod.splits sum.splits if_splits)

lemma update_statistics_Some:
  assumes "update_statistics E A g t0 t1 ivs l w = ((Some e, l1), w1)"
  shows "logbook l1 = logbook l \<and> population l1 = population l \<and> population' l1 = population' l"
  using assms
  by (auto simp: update_statistics_def Let_def logbook_record_def
           split: prod.splits sum.splits if_splits)

lemma generation_steps_None:
  assumes "generation_steps E A g l w = ((None, l1), w1)"
  shows "\<exists>t0 t1 ivs sel wm r.
           vary_evaluate_select E A (population l) w = (Inr (t0, t1, ivs, sel), wm)
         \<and> update_statistics E A g t0 t1 ivs (l\<lparr>population := sel\<rparr>) wm = ((None, l1), w1)
         \<and> l1 = l\<lparr>population := sel, performed_evals := performed_evals l + int (length ivs),
                  logbook := (logbook l)\<lparr>records := records (logbook l) @ [r]\<rparr>\<rparr>
         \<and> gen r = g \<and> nevals r = int (length ivs)
         \<and> py_div (of_int (100 * (g + 1))) (of_int (ngen A + 1)) = Inr (progress r)"
  using assms
  by (auto simp: generation_steps_def split: prod.splits sum.splits dest!: update_statistics_None)

lemma generation_steps_Some:
  assumes "generation_steps E A g l w = ((Some e, l1), w1)"
  shows "logbook l1 = logbook l \<and> population' l1 = population' l"
  using assms
  by (auto simp: generation_steps_def split: prod.splits sum.splits dest!: update_statistics_Some)

lemma gen_body_None:
  assumes "gen_body E A g l w = ((None, l1), w1)"
  shows "\<exists>wm. generation_steps E A g l w = ((None, l1), wm)"
  using assms
  by (auto simp: gen_body_def split: prod.splits sum.splits option.splits if_splits)

lemma gen_body_snapshot:
  assumes "gen_body E A g l w = ((r, l1), w1)"
  shows "population' l1 = population' l"
  using assms
  by (auto simp: gen_body_def split: prod.splits sum.splits option.splits if_splits
      dest!: generation_steps_Some generation_steps_None)

lemma gen_body_logbook:
  assumes "gen_body E A g l w = ((x, l1), w1)"
  shows "(x \<noteq> None \<and> logbook l1 = logbook l) \<or>
         (\<exists>r. logbook l1 = (logbook l)\<lparr>records := records (logbook l) @ [r]\<rparr>
              \<and> gen r = g \<and> progress_ok A r)"
  using assms
  by (auto simp: gen_body_def progress_ok_def split: prod.splits sum.splits option.splits if_splits
      dest!: generation_steps_Some generation_steps_None)

lemma else_clause_locals:
  assumes "else_clause E A g l w = ((x, l1), w1)"
  shows "l1 = l\<lparr>population' := population l\<rparr>"
  using assms
  by (auto simp: else_clause_def Let_def split: prod.splits option.splits if_splits)

lemma initial_generation_Inr:
  assumes "initial_generation E A pop w0 = (Inr l0, w1)"
  shows "population l0 = pop \<and> population' l0 = pop
       \<and> (\<exists>r. logbook l0 = (initial_logbook A)\<lparr>records := [r]\<rparr> \<and> gen r = 0 \<and> progress_ok A r)"
  using assms
  by (auto simp: initial_generation_def Let_def logbook_record_def initial_logbook_def progress_ok_def
      split: prod.splits sum.splits option.splits if_splits)

lemma evaluate_invalid_Inr:
  assumes "evaluate_invalid E tb inds w = (Inr ivs, w1)"
  shows "ivs = filter (\<lambda>i. \<not> fitness_valid E w i) inds"
  using assms
  by (auto simp: evaluate_invalid_def Let_def split: prod.splits option.splits)

lemma vary_evaluate_select_offspring:
  assumes "vary_evaluate_select E A pop w = (Inr (t0, t1, ivs, sel), w1)"
  shows "\<exists>wa offspring wb wc.
           time E w = (t0, wa)
         \<and> varOr E pop (toolbox A) (lambda' A) (cxpb A) (mutpb A) wa = (Inr offspring, wb)
         \<and> time E wb = (t1, wc)
         \<and> ivs = filter (\<lambda>i. \<not> fitness_valid E wc i) offspring"
  using assms
  by (auto simp: vary_evaluate_select_def split: prod.splits sum.splits option.splits
      dest!: evaluate_invalid_Inr)

lemma vary_evaluate_select_Inr:
  assumes "vary_evaluate_select E A pop w = (Inr (t0, t1, ivs, sel), w1)"
  shows "\<exists>offspring wa. select (toolbox A) (pop @ offspring) (mu A) wa = (Inr sel, w1)"
  using assms
  by (auto simp: vary_evaluate_select_def split: prod.splits sum.splits option.splits)

lemma vary_evaluate_select_size:
  assumes "vary_evaluate_select E A pop w = (Inr (t0, t1, ivs, sel), w1)"
    and "select_exact (toolbox A)"
  shows "int (length sel) = mu A"
  using vary_evaluate_select_Inr[OF assms(1)] assms(2) unfolding select_exact_def by blast

lemma gen_body_size:
  assumes "gen_body E A g l w = ((None, l1), w1)" and "select_exact (toolbox A)"
  shows "int (length (population l1)) = mu A"
proof -
  from gen_body_None[OF assms(1)] obtain wm where "generation_steps E A g l w = ((None, l1), wm)"
    by blast
  from generation_steps_None[OF this] obtain t0 t1 ivs sel wa where
    "vary_evaluate_select E A (population l) w = (Inr (t0, t1, ivs, sel), wa)"
    "population l1 = sel" by auto
  then show ?thesis using vary_evaluate_select_size assms(2) by metis
qed

section \<open>Facts about the loop\<close>

lemma generations_append:
  "generations E A (xs @ ys) l w =
     (case generations E A xs l w of
        ((Exhausted, l1), w1) \<Rightarrow> generations E A ys l1 w1
      | ((Broke, l1), w1) \<Rightarrow> ((Broke, l1), w1)
      | ((Raised e, l1), w1) \<Rightarrow> ((Raised e, l1), w1))"
proof (induction xs arbitrary: l w)
  case Nil
  show ?case by simp
next
  case (Cons g gs)
  show ?case
    by (simp add: Cons.IH split: prod.splits option.splits flow.splits)
qed

lemma generations_logbook:
  assumes "generations E A gs l w = ((f, l1), w1)"
  shows "\<exists>rs. records (logbook l1) = records (logbook l) @ rs
            \<and> prefix (map gen rs) gs
            \<and> (\<forall>r\<in>set rs. progress_ok A r)
            \<and> (f = Exhausted \<longrightarrow> map gen rs = gs)"
  using assms
proof (induction gs arbitrary: l w)
  case Nil
  then show ?case by auto
next
  case (Cons g gs)
  obtain x la wa where body: "gen_body E A g l w = ((x, la), wa)"
    by (metis prod.exhaust)
  show ?case
  proof (cases x)
    case (Some e)
    with Cons.prems body have l1: "l1 = la" "f \<noteq> Exhausted"
      by (auto split: prod.splits option.splits if_splits)
    from gen_body_logbook[OF body] show ?thesis
    proof
      assume "x \<noteq> None \<and> logbook la = logbook l"
      then have "records (logbook l1) = records (logbook l) @ []" using l1 by simp
      then show ?thesis using l1 by (intro exI[of _ "[]"]) auto
    next
      assume "\<exists>r. logbook la = (logbook l)\<lparr>records := records (logbook l) @ [r]\<rparr>
              \<and> gen r = g \<and> progress_ok A r"
      then obtain r where r: "logbook la = (logbook l)\<lparr>records := records (logbook l) @ [r]\<rparr>"
        "gen r = g" "progress_ok A r" by blast
      have "records (logbook l1) = records (logbook l) @ [r]" using r l1 by simp
      then show ?thesis using l1 r by (intro exI[of _ "[r]"]) auto
    qed
  next
    case None
    obtain y lb wb where els: "else_clause E A g la wa = ((y, lb), wb)"
      by (metis prod.exhaust)
    from gen_body_logbook[OF body] None obtain r where
      r: "logbook la = (logbook l)\<lparr>records := records (logbook l) @ [r]\<rparr>"
        "gen r = g" "progress_ok A r" by auto
    have lb: "logbook lb = logbook la" using else_clause_locals[OF els] by simp
    show ?thesis
    proof (cases y)
      case (Some e)
      with Cons.prems body None els have "l1 = lb" "f \<noteq> Exhausted" by auto
      moreover have "records (logbook lb) = records (logbook l) @ [r]" using r lb by simp
      ultimately show ?thesis using r by (intro exI[of _ "[r]"]) auto
    next
      case yNone: None
      with Cons.prems body None els have "generations E A gs lb wb = ((f, l1), w1)" by simp
      from Cons.IH[OF this] obtain rs where
        rs: "records (logbook l1) = records (logbook lb) @ rs" "prefix (map gen rs) gs"
          "\<forall>r\<in>set rs. progress_ok A r" "f = Exhausted \<longrightarrow> map gen rs = gs" by blast
      have "records (logbook l1) = records (logbook l) @ (r # rs)" using rs r lb by simp
      moreover have "prefix (map gen (r # rs)) (g # gs)" using rs r by simp
      moreover have "\<forall>q\<in>set (r # rs). progress_ok A q" using rs r by simp
      moreover have "f = Exhausted \<longrightarrow> map gen (r # rs) = g # gs" using rs r by simp
      ultimately show ?thesis by (intro exI[of _ "r # rs"] conjI)
    qed
  qed
qed

lemma generations_size:
  assumes "generations E A gs l w = ((f, l1), w1)"
    and "select_exact (toolbox A)"
    and "int (length (population l)) = mu A"
    and "population' l = population l"
  shows "int (length (population' l1)) = mu A
       \<and> (f = Exhausted \<longrightarrow> population' l1 = population l1)"
  using assms
proof (induction gs arbitrary: l w)
  case Nil
  then show ?case by auto
next
  case (Cons g gs)
  obtain x la wa where body: "gen_body E A g l w = ((x, la), wa)"
    by (metis prod.exhaust)
  have snap: "population' la = population' l" using gen_body_snapshot[OF body] .
  show ?case
  proof (cases x)
    case (Some e)
    with Cons.prems(1) body have "l1 = la" "f \<noteq> Exhausted"
      by (auto split: prod.splits option.splits if_splits)
    then show ?thesis using snap Cons.prems by simp
  next
    case None
    obtain y lb wb where els: "else_clause E A g la wa = ((y, lb), wb)"
      by (metis prod.exhaust)
    have lb: "lb = la\<lparr>population' := population la\<rparr>" using else_clause_locals[OF els] .
    have sz: "int (length (population la)) = mu A"
      using gen_body_size body None Cons.prems(2) by metis
    show ?thesis
    proof (cases y)
      case (Some e)
      with Cons.prems(1) body None els have "l1 = lb" "f \<noteq> Exhausted" by auto
      then show ?thesis using lb sz by simp
    next
      case yNone: None
      with Cons.prems(1) body None els have "generations E A gs lb wb = ((f, l1), w1)" by simp
      moreover have "int (length (population lb)) = mu A" "population' lb = population lb"
        using lb sz by simp_all
      ultimately show ?thesis using Cons.IH Cons.prems(2) by blast
    qed
  qed
qed

lemma start_of_generation_Some:
  assumes "start_of_generation E pop A w0 g = Some (l, w)"
  shows "\<exists>l0 w1. initial_generation E A pop w0 = (Inr l0, w1)
               \<and> generations E A [1..g - 1] l0 w1 = ((Exhausted, l), w)"
  using assms
  by (auto simp: start_of_generation_def split: prod.splits sum.splits flow.splits)

lemma ea_from_generation:
  assumes "start_of_generation E pop A w0 g = Some (l, w)" and "1 \<le> g" and "g \<le> ngen A"
  shows "ea_mu_plus_lambda E pop A w0 = leave_loop (generations E A (g # [g + 1..ngen A]) l w)"
proof -
  from start_of_generation_Some[OF assms(1)] obtain l0 w1 where
    init: "initial_generation E A pop w0 = (Inr l0, w1)" and
    pre: "generations E A [1..g - 1] l0 w1 = ((Exhausted, l), w)" by blast
  have "[1..ngen A] = [1..g - 1] @ [g..ngen A]"
    using assms(2,3) upto_split1[of 1 g "ngen A"] by simp
  also have "[g..ngen A] = g # [g + 1..ngen A]"
    using assms(3) by (simp add: upto_rec1)
  finally have "generations E A [1..ngen A] l0 w1 = generations E A (g # [g + 1..ngen A]) l w"
    using pre by (simp only: generations_append) simp
  then show ?thesis using init by (simp add: ea_mu_plus_lambda_def)
qed

lemma start_of_generation_props:
  assumes "start_of_generation E pop A w0 g = Some (l, w)" and "1 \<le> g"
  shows "population' l = population l
       \<and> map gen (records (logbook l)) = [0..g - 1]
       \<and> (\<forall>r\<in>set (records (logbook l)). progress_ok A r)"
proof -
  from start_of_generation_Some[OF assms(1)] obtain l0 w1 where
    init: "initial_generation E A pop w0 = (Inr l0, w1)" and
    pre: "generations E A [1..g - 1] l0 w1 = ((Exhausted, l), w)" by blast
  from initial_generation_Inr[OF init] obtain r0 where
    l0: "population l0 = pop" "population' l0 = pop"
      "records (logbook l0) = [r0]" "gen r0 = 0" "progress_ok A r0" by auto
  from generations_logbook[OF pre] obtain rs where
    rs: "records (logbook l) = records (logbook l0) @ rs" "map gen rs = [1..g - 1]"
      "\<forall>r\<in>set rs. progress_ok A r" by auto
  have "[0..g - 1] = 0 # [1..g - 1]" using assms(2) by (simp add: upto_rec1)
  then have "map gen (records (logbook l)) = [0..g - 1]" using rs l0 by simp
  moreover have "\<forall>r\<in>set (records (logbook l)). progress_ok A r" using rs l0 by auto
  moreover have "population' l = population l"
  proof (cases "[1..g - 1]")
    case Nil
    then show ?thesis using pre l0 by simp
  next
    case (Cons a as)
    have "[1..g - 1] = butlast [1..g - 1] @ [last [1..g - 1]]" using Cons by simp
    then obtain ys z where yz: "[1..g - 1] = ys @ [z]" by metis
    from pre obtain lm wm where mid: "generations E A ys l0 w1 = ((Exhausted, lm), wm)"
      and lst: "generations E A [z] lm wm = ((Exhausted, l), w)"
      unfolding yz generations_append by (auto split: prod.splits flow.splits)
    from lst show ?thesis
      by (auto split: prod.splits option.splits if_splits dest!: else_clause_locals)
  qed
  ultimately show ?thesis by blast
qed



section \<open>Facts about \<^verbatim>\<open>dump_population\<close> and the test doubles\<close>

lemma update_keys:
  "distinct (map fst al) \<Longrightarrow>
     distinct (map fst (AList.update k v al))
   \<and> set (map fst (AList.update k v al)) = insert k (set (map fst al))"
  by (auto simp: distinct_update dom_update)

lemma write_individuals_keys:
  assumes "write_individuals E bp i inds acc w = (Inr res, w1)"
    and "\<forall>ind k p wa fn wb. ind_write E ind k p wa = (Inr fn, wb) \<longrightarrow> basename fn = nm k"
    and "distinct (map fst acc)"
  shows "distinct (map fst res)
       \<and> set (map fst res) = set (map fst acc) \<union> nm ` {i..<i + length inds}"
  using assms
proof (induction inds arbitrary: i acc w)
  case Nil
  then show ?case by simp
next
  case (Cons ind rest)
  from Cons.prems(1) obtain fn wa where
    wr: "ind_write E ind i bp w = (Inr fn, wa)" and
    rec: "write_individuals E bp (Suc i) rest
            (AList.update (basename fn) (fitness_values E wa ind) acc) wa = (Inr res, w1)"
    by (auto split: prod.splits sum.splits)
  have nm: "basename fn = nm i" using wr Cons.prems(2) by blast
  have d: "distinct (map fst (AList.update (nm i) (fitness_values E wa ind) acc))"
    and k: "set (map fst (AList.update (nm i) (fitness_values E wa ind) acc))
              = insert (nm i) (set (map fst acc))"
    using update_keys[OF Cons.prems(3)] by simp_all
  from Cons.IH[OF rec[unfolded nm] Cons.prems(2) d] have
    "distinct (map fst res)"
    "set (map fst res) = insert (nm i) (set (map fst acc)) \<union> nm ` {Suc i..<Suc i + length rest}"
    using k by simp_all
  moreover have "{i..<i + length (ind # rest)} = insert i {Suc i..<Suc i + length rest}"
    by auto
  ultimately show ?case by auto
qed

lemma stub_select_exact: "select_exact (stub_toolbox sc)"
  by (auto simp: select_exact_def stub_toolbox_def split: if_splits)

lemma digit_char_no_slash: "d < 10 \<Longrightarrow> digit_char d \<noteq> CHR ''/''"
proof -
  assume d: "d < 10"
  have "list_all (\<lambda>k. digit_char k \<noteq> CHR ''/'') [0..<10]" by code_simp
  then show ?thesis using d by (simp add: list_all_iff)
qed

lemma str_nat_no_slash: "CHR ''/'' \<notin> set (str_nat n)"
proof (induction n rule: str_nat.induct)
  case (1 n)
  show ?case
  proof (cases "n < 10")
    case True
    then show ?thesis using digit_char_no_slash[of n] by (simp add: str_nat.simps)
  next
    case False
    have "n mod 10 < 10" by simp
    then have "digit_char (n mod 10) \<noteq> CHR ''/''" by (rule digit_char_no_slash)
    then show ?thesis using False 1 by (subst str_nat.simps) auto
  qed
qed

lemma basename_append:
  assumes "CHR ''/'' \<notin> set b" and "xs = [] \<or> last xs = CHR ''/''"
  shows "basename (xs @ b) = b"
proof -
  have all: "takeWhile (\<lambda>c. c \<noteq> CHR ''/'') (rev b) = rev b" using assms(1) by auto
  show ?thesis
  proof (cases "xs = []")
    case True
    show ?thesis unfolding basename_def True by (simp only: append_Nil all rev_rev_ident)
  next
    case False
    then obtain ys where xs: "xs = ys @ [CHR ''/'']"
      using assms(2) by (metis append_butlast_last_id)
    have "takeWhile (\<lambda>c. c \<noteq> CHR ''/'') (rev b @ CHR ''/'' # rev ys)
            = takeWhile (\<lambda>c. c \<noteq> CHR ''/'') (rev b)"
      by (rule takeWhile_tail) simp
    then have "takeWhile (\<lambda>c. c \<noteq> CHR ''/'') (rev (xs @ b)) = rev b"
      unfolding xs by (simp only: all rev_append rev.simps append_Nil append_assoc append_Cons)
    then show ?thesis unfolding basename_def by (simp only: rev_rev_ident)
  qed
qed

lemma basename_join:
  assumes "CHR ''/'' \<notin> set b"
  shows "basename (join a b) = b"
proof -
  have nohd: "\<not> (b \<noteq> [] \<and> hd b = CHR ''/'')" using assms by (cases b) auto
  show ?thesis
  proof (cases "a = [] \<or> last a = CHR ''/''")
    case True
    then have "join a b = a @ b" using nohd by (auto simp: join_def)
    then show ?thesis using basename_append[OF assms True] by simp
  next
    case False
    then have "join a b = (a @ [CHR ''/'']) @ b" using nohd by (auto simp: join_def)
    moreover have "basename ((a @ [CHR ''/'']) @ b) = b"
      by (rule basename_append[OF assms]) simp
    ultimately show ?thesis by simp
  qed
qed

lemma plain_artifact: "basename (join p (sc_artifact plain k)) = sc_artifact plain k"
  by (rule basename_join) (simp add: plain_def str_nat_no_slash)

section \<open>The claims\<close>

subsection \<open>C1: interruption with confirmation\<close>

text \<open>
  Claim C1 as stated: whenever an exception or a cancellation signal is raised during the body
  of generation \<open>g\<close> and the user confirms, the function returns the population snapshot
  of the end of generation \<open>g - 1\<close> with the logbook accumulated up to generation
  \<open>g - 1\<close>. This fails once the record of generation \<open>g\<close> has been appended. In the
  scenario \<open>interrupted_report\<close> the run enters generation 1 with the population \<open>[0, 1]\<close>
  and a logbook that holds generation 0 only; a \<^verbatim>\<open>KeyboardInterrupt\<close> arrives while the
  report of line 147 is produced; the answer at the prompt is \<^verbatim>\<open>Yes\<close>; and the function
  returns the population \<open>[0, 1]\<close> of generation 0 with a logbook of two records, those of
  generations 0 and 1.
\<close>

theorem C1_counterexample:
  "map_option (\<lambda>(l, w). (fst (fst (gen_body (stub_env interrupted_report)
                                        (stub_args interrupted_report 3 0) 1 l w)),
                         population l, map gen (records (logbook l))))
     (start_of_generation (stub_env interrupted_report) [0, 1] (stub_args interrupted_report 3 0) world0 1)
     = Some (Some KeyboardInterrupt, [0, 1], [0])
 \<and> lower (sc_answer interrupted_report) = ''yes''
 \<and> map_sum id (\<lambda>(p, lb). (p, map gen (records lb)))
       (fst (ea_mu_plus_lambda (stub_env interrupted_report) [0, 1]
               (stub_args interrupted_report 3 0) world0))
     = Inr ([0, 1], [0, 1])"
  by code_simp

text \<open>
  Claim C1, amended: if the exception is raised in the body of generation \<open>g\<close> before the
  record of \<open>g\<close> is appended (lines 117 to 145), line 148 catches it, the user confirms, and
  reverting the individuals raises nothing that line 156 lets through, then the loop stops and
  the function returns the population as of the end of generation \<open>g - 1\<close> with the logbook
  as of the end of generation \<open>g - 1\<close>, whose records are those of generations \<open>0\<close> to
  \<open>g - 1\<close>, \<open>g\<close> of them.
\<close>

theorem C1_amended:
  assumes "start_of_generation E pop A w0 g = Some (l, w)" and "1 \<le> g" and "g \<le> ngen A"
    and "generation_steps E A g l w = ((Some e, lx), wx)"
    and "caught_148 e"
    and "raw_input E prompt (logger E (Error e) wx) = (Inr answer, wy)"
    and "lower answer \<in> set [''y'', ''yes'']"
    and "unexpress_all E (population lx) wy = (None, wz)"
  shows "ea_mu_plus_lambda E pop A w0 = (Inr (population l, logbook l), population lx, wz)
       \<and> map gen (records (logbook l)) = [0..g - 1]
       \<and> int (length (records (logbook l))) = g"
proof -
  have body: "gen_body E A g l w = ((Some e, lx), wx)"
    using assms(4) by (simp add: gen_body_def)
  have same: "logbook lx = logbook l" "population' lx = population' l"
    using generation_steps_Some[OF assms(4)] by simp_all
  have "interruption_handler E e lx wx = (None, wz)"
    using assms(6,7,8) by (simp add: interruption_handler_def Let_def)
  then have "generations E A (g # [g + 1..ngen A]) l w = ((Broke, lx), wz)"
    using body assms(5) by simp
  then have "ea_mu_plus_lambda E pop A w0 = (Inr (population' lx, logbook lx), population lx, wz)"
    using ea_from_generation[OF assms(1-3)] by (simp add: leave_loop_def)
  moreover from start_of_generation_props[OF assms(1,2)] have
    props: "population' l = population l" "map gen (records (logbook l)) = [0..g - 1]" by simp_all
  moreover have "int (length (records (logbook l))) = g"
  proof -
    have "length (records (logbook l)) = length [0..g - 1]"
      using props(2) by (metis length_map)
    then show ?thesis using assms(2) by simp
  qed
  ultimately show ?thesis using same by simp
qed

text \<open>
  The scenario of the specification: the evaluation of generation 2 raises and the answer is
  \<^verbatim>\<open>Yes\<close>.
\<close>

theorem C1_amended_witness:
  "\<exists>l w e lx wx answer wy wz.
     start_of_generation (stub_env failing_evaluation) [0, 1] (stub_args failing_evaluation 3 0) world0 2
       = Some (l, w)
   \<and> 1 \<le> (2::int) \<and> 2 \<le> ngen (stub_args failing_evaluation 3 0)
   \<and> generation_steps (stub_env failing_evaluation) (stub_args failing_evaluation 3 0) 2 l w
       = ((Some e, lx), wx)
   \<and> caught_148 e
   \<and> raw_input (stub_env failing_evaluation) prompt
        (logger (stub_env failing_evaluation) (Error e) wx) = (Inr answer, wy)
   \<and> lower answer \<in> set [''y'', ''yes'']
   \<and> unexpress_all (stub_env failing_evaluation) (population lx) wy = (None, wz)
   \<and> ea_mu_plus_lambda (stub_env failing_evaluation) [0, 1] (stub_args failing_evaluation 3 0) world0
       = (Inr (population l, logbook l), population lx, wz)
   \<and> map gen (records (logbook l)) = [0..2 - 1]
   \<and> int (length (records (logbook l))) = 2"
proof -
  let ?E = "stub_env failing_evaluation" and ?A = "stub_args failing_evaluation 3 0"
  let ?s = "the (start_of_generation ?E [0, 1] ?A world0 2)"
  let ?b = "generation_steps ?E ?A 2 (fst ?s) (snd ?s)"
  let ?e = "Exception ''evaluation failed''"
  let ?r = "raw_input ?E prompt (logger ?E (Error ?e) (snd ?b))"
  let ?u = "unexpress_all ?E (population (snd (fst ?b))) (snd ?r)"
  have "case start_of_generation ?E [0, 1] ?A world0 2 of None \<Rightarrow> False | Some s \<Rightarrow> True"
    by code_simp
  then have s: "start_of_generation ?E [0, 1] ?A world0 2 = Some (fst ?s, snd ?s)"
    by (auto split: option.splits)
  have g: "1 \<le> (2::int)" "2 \<le> ngen ?A" by (simp_all add: stub_args_def)
  have "fst (fst ?b) = Some ?e" by code_simp
  then have b: "?b = ((Some ?e, snd (fst ?b)), snd ?b)" by (metis prod.collapse)
  have c: "caught_148 ?e" by simp
  have "fst ?r = Inr ''Yes''" by (simp add: stub_env_def failing_evaluation_def plain_def)
  then have r: "?r = (Inr ''Yes'', snd ?r)" by (metis prod.collapse)
  have a: "lower ''Yes'' \<in> set [''y'', ''yes'']" by code_simp
  have "fst ?u = None" by code_simp
  then have u: "?u = (None, snd ?u)" by (metis prod.collapse)
  from C1_amended[OF s g b c r a u] s g b c r a u show ?thesis by blast
qed

subsection \<open>C2: population size\<close>

text \<open>
  Claim C2: when the initial population has \<open>mu\<close> individuals and \<^verbatim>\<open>select\<close> returns
  exactly \<open>k\<close> individuals when asked for \<open>k\<close>, the population has exactly \<open>mu\<close>
  individuals after every completed generation \<open>g\<close> in \<open>1..ngen\<close> (these are the locals with
  which the loop goes on to generation \<open>g + 1\<close>), and every population that the function
  returns has exactly \<open>mu\<close> individuals.
\<close>

theorem C2_population_size:
  assumes "int (length pop) = mu A" and "select_exact (toolbox A)"
  shows "(\<forall>g l w. 1 \<le> g \<and> g \<le> ngen A \<and> start_of_generation E pop A w0 (g + 1) = Some (l, w)
            \<longrightarrow> int (length (population l)) = mu A)
       \<and> (\<forall>p lb c w. ea_mu_plus_lambda E pop A w0 = (Inr (p, lb), c, w) \<longrightarrow> int (length p) = mu A)"
proof (intro conjI allI impI)
  fix g l w
  assume a: "1 \<le> g \<and> g \<le> ngen A \<and> start_of_generation E pop A w0 (g + 1) = Some (l, w)"
  then obtain l0 w1 where
    init: "initial_generation E A pop w0 = (Inr l0, w1)" and
    run: "generations E A [1..g] l0 w1 = ((Exhausted, l), w)"
    using start_of_generation_Some[of E pop A w0 "g + 1" l w] by auto
  have l0: "int (length (population l0)) = mu A" "population' l0 = population l0"
    using initial_generation_Inr[OF init] assms(1) by simp_all
  from generations_size[OF run assms(2) l0] show "int (length (population l)) = mu A" by metis
next
  fix p lb c w
  assume r: "ea_mu_plus_lambda E pop A w0 = (Inr (p, lb), c, w)"
  then obtain l0 w1 where init: "initial_generation E A pop w0 = (Inr l0, w1)"
    by (auto simp: ea_mu_plus_lambda_def split: prod.splits sum.splits)
  obtain f l wa where run: "generations E A [1..ngen A] l0 w1 = ((f, l), wa)"
    by (metis prod.exhaust)
  have l0: "int (length (population l0)) = mu A" "population' l0 = population l0"
    using initial_generation_Inr[OF init] assms(1) by simp_all
  have "p = population' l"
    using r init run by (cases f) (simp_all add: ea_mu_plus_lambda_def leave_loop_def)
  then show "int (length p) = mu A" using generations_size[OF run assms(2) l0] by simp
qed

text \<open>
  A run of two generations with \<open>mu = 2\<close> and three children per generation.
\<close>

theorem C2_witness:
  "int (length [0, 1 :: nat]) = mu (stub_args plain 2 1)
 \<and> select_exact (toolbox (stub_args plain 2 1))
 \<and> (\<exists>l w. start_of_generation (stub_env plain) [0, 1] (stub_args plain 2 1) world0 (2 + 1) = Some (l, w)
          \<and> int (length (population l)) = 2)
 \<and> (\<exists>p lb c w. ea_mu_plus_lambda (stub_env plain) [0, 1] (stub_args plain 2 1) world0 = (Inr (p, lb), c, w)
          \<and> int (length p) = 2)"
proof -
  let ?E = "stub_env plain" and ?A = "stub_args plain 2 1"
  have h1: "int (length [0, 1 :: nat]) = mu ?A" by (simp add: stub_args_def)
  have h2: "select_exact (toolbox ?A)" by (simp add: stub_args_def stub_select_exact)
  have n: "ngen ?A = 2" "mu ?A = 2" by (simp_all add: stub_args_def)
  have "case start_of_generation ?E [0, 1] ?A world0 3 of None \<Rightarrow> False | Some s \<Rightarrow> True"
    by code_simp
  then obtain l w where s: "start_of_generation ?E [0, 1] ?A world0 (2 + 1) = Some (l, w)"
    by (auto split: option.splits)
  have "case fst (ea_mu_plus_lambda ?E [0, 1] ?A world0) of Inl e \<Rightarrow> False | Inr r \<Rightarrow> True"
    by code_simp
  then obtain p lb c wa where r: "ea_mu_plus_lambda ?E [0, 1] ?A world0 = (Inr (p, lb), c, wa)"
    by (cases "ea_mu_plus_lambda ?E [0, 1] ?A world0") (auto split: sum.splits)
  have g: "1 \<le> (2::int) \<and> 2 \<le> ngen ?A" using n by simp
  note size = C2_population_size[OF h1 h2, of ?E world0]
  have "int (length (population l)) = mu ?A" using size g s by blast
  moreover have "int (length p) = mu ?A" using size r by blast
  ultimately show ?thesis using h1 h2 s r n by auto
qed

subsection \<open>C3: validation of the configuration\<close>

text \<open>
  Claim C3 as stated: a call with \<open>cxpb + mutpb > 1\<close>, \<open>mu \<le> 0\<close>, \<open>lambda_ \<le> 0\<close> or
  \<open>ngen < 0\<close> is rejected as a configuration error before generation 1 begins and never
  surfaces as an exception raised inside the loop. The function checks none of these values.
  With \<open>cxpb + mutpb = 13/10\<close> generation 0 is evaluated (one batch of evaluations has run),
  the failure is raised by \<^verbatim>\<open>varOr\<close> inside generation 1, and after the answer
  \<^verbatim>\<open>Yes\<close> the function returns normally. With \<open>mu = 0\<close>, \<open>lambda_ = 0\<close> and
  \<open>ngen = -2\<close> the function returns the initial population and a logbook of one record.
\<close>

theorem C3_counterexample:
  "map_option (\<lambda>(l, w). (fst (fst (gen_body (stub_env plain)
                                        ((stub_args plain 2 0)\<lparr>cxpb := 4 / 5, mutpb := 1 / 2\<rparr>) 1 l w)),
                         tw_batches w))
     (start_of_generation (stub_env plain) [0, 1]
        ((stub_args plain 2 0)\<lparr>cxpb := 4 / 5, mutpb := 1 / 2\<rparr>) world0 1)
     = Some (Some (Exception ''The sum of the probabilities must be <= 1.0''), 1)
 \<and> map_sum id (\<lambda>(p, lb). (p, map gen (records lb)))
       (fst (ea_mu_plus_lambda (stub_env plain) [0, 1]
               ((stub_args plain 2 0)\<lparr>cxpb := 4 / 5, mutpb := 1 / 2\<rparr>) world0))
     = Inr ([0, 1], [0])
 \<and> map_sum id (\<lambda>(p, lb). (p, map gen (records lb)))
       (fst (ea_mu_plus_lambda (stub_env plain) [0, 1]
               ((stub_args plain (- 2) 0)\<lparr>mu := 0, lambda' := 0\<rparr>) world0))
     = Inr ([0, 1], [0])"
  by code_simp

text \<open>
  Claim C3, amended: \<^verbatim>\<open>ea_mu_plus_lambda\<close> does not validate its configuration.
  Whatever \<open>mu\<close>, \<open>lambda_\<close>, \<open>cxpb\<close> and \<open>mutpb\<close> are, once generation 0 has succeeded
  a call with \<open>ngen < 1\<close> returns the initial population with the logbook of generation 0,
  and when \<^verbatim>\<open>varOr\<close> raises in generation 1 (as it does for \<open>cxpb + mutpb > 1\<close>) the
  exception is handled inside the loop by the interruption handler, whose outcome is the
  outcome of the call.
\<close>

theorem C3_amended:
  assumes "initial_generation E A pop w0 = (Inr l0, w1)"
  shows "(ngen A < 1 \<longrightarrow> ea_mu_plus_lambda E pop A w0 = (Inr (pop, logbook l0), pop, w1))
       \<and> (1 \<le> ngen A \<and> time E w1 = (t0, wa)
            \<and> varOr E pop (toolbox A) (lambda' A) (cxpb A) (mutpb A) wa = (Inl e, wb)
            \<and> caught_148 e
          \<longrightarrow> ea_mu_plus_lambda E pop A w0 =
                (case interruption_handler E e l0 wb of
                   (Some e1, w2) \<Rightarrow> (Inl e1, pop, w2)
                 | (None, w2) \<Rightarrow> (Inr (pop, logbook l0), pop, w2)))"
proof (intro conjI impI)
  have l0: "population l0 = pop" "population' l0 = pop"
    using initial_generation_Inr[OF assms] by simp_all
  {
    assume "ngen A < 1"
    then have "[1..ngen A] = []" by simp
    then show "ea_mu_plus_lambda E pop A w0 = (Inr (pop, logbook l0), pop, w1)"
      using assms l0 by (simp add: ea_mu_plus_lambda_def leave_loop_def)
  }
  {
    assume a: "1 \<le> ngen A \<and> time E w1 = (t0, wa)
            \<and> varOr E pop (toolbox A) (lambda' A) (cxpb A) (mutpb A) wa = (Inl e, wb)
            \<and> caught_148 e"
    then have "vary_evaluate_select E A (population l0) w1 = (Inl e, wb)"
      using l0 by (simp add: vary_evaluate_select_def)
    then have body: "gen_body E A 1 l0 w1 = ((Some e, l0), wb)"
      by (simp add: gen_body_def generation_steps_def)
    have "[1..ngen A] = 1 # [2..ngen A]" using a by (simp add: upto_rec1)
    then show "ea_mu_plus_lambda E pop A w0 =
                (case interruption_handler E e l0 wb of
                   (Some e1, w2) \<Rightarrow> (Inl e1, pop, w2)
                 | (None, w2) \<Rightarrow> (Inr (pop, logbook l0), pop, w2))"
      using assms body a l0
      by (simp add: ea_mu_plus_lambda_def leave_loop_def split: prod.splits option.splits)
  }
qed

text \<open>
  Both cases on the test doubles: \<open>ngen = -2\<close>, and \<open>cxpb + mutpb = 13/10\<close>.
\<close>

theorem C3_amended_witness:
  "(\<exists>l0 w1. initial_generation (stub_env plain)
               ((stub_args plain (- 2) 0)\<lparr>mu := 0, lambda' := 0\<rparr>) [0, 1] world0 = (Inr l0, w1)
      \<and> ngen ((stub_args plain (- 2) 0)\<lparr>mu := 0, lambda' := 0\<rparr>) < 1
      \<and> ea_mu_plus_lambda (stub_env plain) [0, 1]
               ((stub_args plain (- 2) 0)\<lparr>mu := 0, lambda' := 0\<rparr>) world0
          = (Inr ([0, 1], logbook l0), [0, 1], w1))
 \<and> (\<exists>l0 w1 t0 wa e wb.
        initial_generation (stub_env plain)
               ((stub_args plain 2 0)\<lparr>cxpb := 4 / 5, mutpb := 1 / 2\<rparr>) [0, 1] world0 = (Inr l0, w1)
      \<and> 1 \<le> ngen ((stub_args plain 2 0)\<lparr>cxpb := 4 / 5, mutpb := 1 / 2\<rparr>)
      \<and> time (stub_env plain) w1 = (t0, wa)
      \<and> varOr (stub_env plain) [0, 1]
           (toolbox ((stub_args plain 2 0)\<lparr>cxpb := 4 / 5, mutpb := 1 / 2\<rparr>))
           (lambda' ((stub_args plain 2 0)\<lparr>cxpb := 4 / 5, mutpb := 1 / 2\<rparr>))
           (cxpb ((stub_args plain 2 0)\<lparr>cxpb := 4 / 5, mutpb := 1 / 2\<rparr>))
           (mutpb ((stub_args plain 2 0)\<lparr>cxpb := 4 / 5, mutpb := 1 / 2\<rparr>)) wa = (Inl e, wb)
      \<and> caught_148 e
      \<and> ea_mu_plus_lambda (stub_env plain) [0, 1]
               ((stub_args plain 2 0)\<lparr>cxpb := 4 / 5, mutpb := 1 / 2\<rparr>) world0
          = (case interruption_handler (stub_env plain) e l0 wb of
               (Some e1, w2) \<Rightarrow> (Inl e1, [0, 1], w2)
             | (None, w2) \<Rightarrow> (Inr ([0, 1], logbook l0), [0, 1], w2)))"
proof -
  let ?E = "stub_env plain"
  let ?A = "(stub_args plain (- 2) 0)\<lparr>mu := 0, lambda' := 0\<rparr>"
  let ?B = "(stub_args plain 2 0)\<lparr>cxpb := 4 / 5, mutpb := 1 / 2\<rparr>"
  let ?e = "Exception ''The sum of the probabilities must be <= 1.0''"
  let ?i = "initial_generation ?E ?A [0, 1] world0"
  let ?j = "initial_generation ?E ?B [0, 1] world0"
  let ?t = "time ?E (snd ?j)"
  let ?v = "varOr ?E [0, 1] (toolbox ?B) (lambda' ?B) (cxpb ?B) (mutpb ?B) (snd ?t)"
  have "case fst ?i of Inl e \<Rightarrow> False | Inr l \<Rightarrow> True" by code_simp
  then obtain l0 where "fst ?i = Inr l0" by (auto split: sum.splits)
  then have i: "?i = (Inr l0, snd ?i)" by (metis prod.collapse)
  have n: "ngen ?A < 1" by (simp add: stub_args_def)
  have "case fst ?j of Inl e \<Rightarrow> False | Inr l \<Rightarrow> True" by code_simp
  then obtain k0 where "fst ?j = Inr k0" by (auto split: sum.splits)
  then have j: "?j = (Inr k0, snd ?j)" by (metis prod.collapse)
  have m: "1 \<le> ngen ?B" by (simp add: stub_args_def)
  have t: "?t = (fst ?t, snd ?t)" by simp
  have "fst ?v = Inl ?e" by (simp add: stub_env_def stub_args_def)
  then have v: "?v = (Inl ?e, snd ?v)" by (metis prod.collapse)
  have c: "caught_148 ?e" by simp
  from C3_amended[OF i] n have
    a: "ea_mu_plus_lambda ?E [0, 1] ?A world0 = (Inr ([0, 1], logbook l0), [0, 1], snd ?i)" by blast
  from C3_amended[OF j, of "fst ?t" "snd ?t" ?e "snd ?v"] m t v c have
    b: "ea_mu_plus_lambda ?E [0, 1] ?B world0 =
          (case interruption_handler ?E ?e k0 (snd ?v) of
             (Some e1, w2) \<Rightarrow> (Inl e1, [0, 1], w2)
           | (None, w2) \<Rightarrow> (Inr ([0, 1], logbook k0), [0, 1], w2))" by blast
  show ?thesis
  proof (intro conjI)
    show "\<exists>l0 w1. ?i = (Inr l0, w1) \<and> ngen ?A < 1
        \<and> ea_mu_plus_lambda ?E [0, 1] ?A world0 = (Inr ([0, 1], logbook l0), [0, 1], w1)"
      using i n a by blast
    show "\<exists>l0 w1 t0 wa e wb. ?j = (Inr l0, w1) \<and> 1 \<le> ngen ?B \<and> time ?E w1 = (t0, wa)
        \<and> varOr ?E [0, 1] (toolbox ?B) (lambda' ?B) (cxpb ?B) (mutpb ?B) wa = (Inl e, wb)
        \<and> caught_148 e
        \<and> ea_mu_plus_lambda ?E [0, 1] ?B world0
          = (case interruption_handler ?E e l0 wb of
               (Some e1, w2) \<Rightarrow> (Inl e1, [0, 1], w2)
             | (None, w2) \<Rightarrow> (Inr ([0, 1], logbook l0), [0, 1], w2))"
      using j m t v c b by blast
  qed
qed

subsection \<open>C4: elapsed time of zero\<close>

text \<open>
  Claim C4 as stated: when the measured elapsed time is zero, the record of generation 0 and
  the record of every later generation report an upper bound of the speed instead of dividing
  by zero. The divisions of lines 102, 137 and 138 are not guarded: with a clock that does not
  advance, the call raises \<^verbatim>\<open>ZeroDivisionError\<close> and records nothing.
\<close>

theorem C4_counterexample:
  "fst (ea_mu_plus_lambda (stub_env frozen_clock) [0, 1] (stub_args frozen_clock 2 0) world0)
     = Inl ZeroDivisionError
 \<and> tw_log (snd (snd (ea_mu_plus_lambda (stub_env frozen_clock) [0, 1]
                        (stub_args frozen_clock 2 0) world0))) = []"
  by code_simp

text \<open>
  Claim C4, amended: the throughput computation is not guarded. When the two clock readings
  of generation 0 are equal, \<^verbatim>\<open>ea_mu_plus_lambda\<close> raises \<^verbatim>\<open>ZeroDivisionError\<close>
  (line 102) and returns nothing; when the readings \<open>t1\<close> and \<open>t2\<close> of a later generation
  are equal, line 137 raises \<^verbatim>\<open>ZeroDivisionError\<close> inside the body, after the selection
  has been stored and before a record is appended.
\<close>

theorem C4_amended:
  "(evaluate_population E A pop w0 = (Inr (t0, ivs, rec), w1) \<and> time E w1 = (t0, w2)
      \<longrightarrow> ea_mu_plus_lambda E pop A w0 = (Inl ZeroDivisionError, pop, w2))
 \<and> (vary_evaluate_select E A (population l) w = (Inr (s0, s1, jvs, sel), wa)
      \<and> time E wa = (s1, wb)
      \<longrightarrow> gen_body E A g l w = ((Some ZeroDivisionError, l\<lparr>population := sel\<rparr>), wb))"
  by (simp add: ea_mu_plus_lambda_def initial_generation_def gen_body_def generation_steps_def
      update_statistics_def py_div_def Let_def)

text \<open>
  Both cases with the clock that does not advance.
\<close>

theorem C4_amended_witness:
  "(\<exists>t0 ivs rec w1 w2.
      evaluate_population (stub_env frozen_clock) (stub_args frozen_clock 2 0) [0, 1] world0
        = (Inr (t0, ivs, rec), w1)
    \<and> time (stub_env frozen_clock) w1 = (t0, w2)
    \<and> ea_mu_plus_lambda (stub_env frozen_clock) [0, 1] (stub_args frozen_clock 2 0) world0
        = (Inl ZeroDivisionError, [0, 1], w2))
 \<and> (\<exists>l w s0 s1 jvs sel wa wb.
      start_of_generation (stub_env plain) [0, 1] (stub_args plain 2 0) world0 1 = Some (l, w)
    \<and> vary_evaluate_select (stub_env frozen_clock) (stub_args frozen_clock 2 0) (population l) w
        = (Inr (s0, s1, jvs, sel), wa)
    \<and> time (stub_env frozen_clock) wa = (s1, wb)
    \<and> gen_body (stub_env frozen_clock) (stub_args frozen_clock 2 0) 1 l w
        = ((Some ZeroDivisionError, l\<lparr>population := sel\<rparr>), wb))"
proof -
  let ?E = "stub_env frozen_clock" and ?A = "stub_args frozen_clock 2 0"
  let ?p = "evaluate_population ?E ?A [0, 1] world0"
  let ?t = "time ?E (snd ?p)"
  let ?s = "the (start_of_generation (stub_env plain) [0, 1] (stub_args plain 2 0) world0 1)"
  let ?v = "vary_evaluate_select ?E ?A (population (fst ?s)) (snd ?s)"
  let ?u = "time ?E (snd ?v)"
  have "case fst ?p of Inl e \<Rightarrow> False | Inr r \<Rightarrow> fst ?t = fst r" by code_simp
  then obtain t0 ivs rec where p: "?p = (Inr (t0, ivs, rec), snd ?p)" and t: "?t = (t0, snd ?t)"
    by (cases "fst ?p") (auto simp: prod_eq_iff)
  have "case start_of_generation (stub_env plain) [0, 1] (stub_args plain 2 0) world0 1 of
          None \<Rightarrow> False | Some s \<Rightarrow> True"
    by code_simp
  then have s: "start_of_generation (stub_env plain) [0, 1] (stub_args plain 2 0) world0 1
                  = Some (fst ?s, snd ?s)"
    by (auto split: option.splits)
  have "case fst ?v of Inl e \<Rightarrow> False | Inr r \<Rightarrow> fst ?u = fst (snd r)" by code_simp
  then obtain s0 s1 jvs sel where v: "?v = (Inr (s0, s1, jvs, sel), snd ?v)" and u: "?u = (s1, snd ?u)"
    by (cases "fst ?v") (auto simp: prod_eq_iff)
  note inst = C4_amended[of ?E ?A "[0, 1]" world0 t0 ivs rec "snd ?p" "snd ?t"
                          "fst ?s" "snd ?s" s0 s1 jvs sel "snd ?v" "snd ?u" 1]
  have a: "ea_mu_plus_lambda ?E [0, 1] ?A world0 = (Inl ZeroDivisionError, [0, 1], snd ?t)"
    using inst p t by blast
  have b: "gen_body ?E ?A 1 (fst ?s) (snd ?s)
             = ((Some ZeroDivisionError, (fst ?s)\<lparr>population := sel\<rparr>), snd ?u)"
    using inst v u by blast
  show ?thesis
  proof (intro conjI)
    show "\<exists>t0 ivs rec w1 w2. ?p = (Inr (t0, ivs, rec), w1) \<and> time ?E w1 = (t0, w2)
        \<and> ea_mu_plus_lambda ?E [0, 1] ?A world0 = (Inl ZeroDivisionError, [0, 1], w2)"
      using p t a by blast
    show "\<exists>l w s0 s1 jvs sel wa wb.
        start_of_generation (stub_env plain) [0, 1] (stub_args plain 2 0) world0 1 = Some (l, w)
      \<and> vary_evaluate_select ?E ?A (population l) w = (Inr (s0, s1, jvs, sel), wa)
      \<and> time ?E wa = (s1, wb)
      \<and> gen_body ?E ?A 1 l w = ((Some ZeroDivisionError, l\<lparr>population := sel\<rparr>), wb)"
      using s v u b by blast
  qed
qed

subsection \<open>C5: progress\<close>



subsection \<open>C6: evaluation count\<close>

text \<open>
  Claim C6: when the body of generation \<open>g\<close> completes, the record that it appends carries
  \<open>gen = g\<close> and an evaluation count equal to the number of offspring, among those that
  \<^verbatim>\<open>varOr\<close> returned, whose fitness is invalid in the world just before the evaluation
  step (after the clock reading of line 121). Offspring whose fitness is valid there are not
  counted: the count and their number add up to the number of offspring.
\<close>

theorem C6_nevals:
  assumes "gen_body E A g l w = ((None, l1), w1)"
  shows "\<exists>t0 wa offspring wb t1 wc r.
           time E w = (t0, wa)
         \<and> varOr E (population l) (toolbox A) (lambda' A) (cxpb A) (mutpb A) wa = (Inr offspring, wb)
         \<and> time E wb = (t1, wc)
         \<and> records (logbook l1) = records (logbook l) @ [r]
         \<and> gen r = g
         \<and> nevals r = int (length (filter (\<lambda>i. \<not> fitness_valid E wc i) offspring))
         \<and> nevals r + int (length (filter (fitness_valid E wc) offspring)) = int (length offspring)"
proof -
  from gen_body_None[OF assms] obtain wm where "generation_steps E A g l w = ((None, l1), wm)"
    by blast
  from generation_steps_None[OF this] obtain t0 t1 ivs sel wn r where
    ves: "vary_evaluate_select E A (population l) w = (Inr (t0, t1, ivs, sel), wn)" and
    l1: "l1 = l\<lparr>population := sel, performed_evals := performed_evals l + int (length ivs),
                  logbook := (logbook l)\<lparr>records := records (logbook l) @ [r]\<rparr>\<rparr>" and
    r: "gen r = g" "nevals r = int (length ivs)" by blast
  from vary_evaluate_select_offspring[OF ves] obtain wa offspring wb wc where
    steps: "time E w = (t0, wa)"
      "varOr E (population l) (toolbox A) (lambda' A) (cxpb A) (mutpb A) wa = (Inr offspring, wb)"
      "time E wb = (t1, wc)" and
    ivs: "ivs = filter (\<lambda>i. \<not> fitness_valid E wc i) offspring" by blast
  have recs: "records (logbook l1) = records (logbook l) @ [r]" using l1 by simp
  have n: "nevals r = int (length (filter (\<lambda>i. \<not> fitness_valid E wc i) offspring))"
    using r ivs by simp
  have "length (filter (\<lambda>i. \<not> fitness_valid E wc i) offspring)
          + length (filter (fitness_valid E wc) offspring) = length offspring"
    using sum_length_filter_compl[of "fitness_valid E wc" offspring] by simp
  then have "nevals r + int (length (filter (fitness_valid E wc) offspring)) = int (length offspring)"
    using n by simp
  with steps recs r(1) n show ?thesis by blast
qed

text \<open>
  Generation 1 of the run: of the three children, two were born with a valid fitness.
\<close>

theorem C6_witness:
  "\<exists>l w l1 w1.
     start_of_generation (stub_env plain) [0, 1] (stub_args plain 2 1) world0 1 = Some (l, w)
   \<and> gen_body (stub_env plain) (stub_args plain 2 1) 1 l w = ((None, l1), w1)
   \<and> (\<exists>t0 wa offspring wb t1 wc r.
         time (stub_env plain) w = (t0, wa)
       \<and> varOr (stub_env plain) (population l) (toolbox (stub_args plain 2 1))
            (lambda' (stub_args plain 2 1)) (cxpb (stub_args plain 2 1))
            (mutpb (stub_args plain 2 1)) wa = (Inr offspring, wb)
       \<and> time (stub_env plain) wb = (t1, wc)
       \<and> records (logbook l1) = records (logbook l) @ [r]
       \<and> gen r = 1
       \<and> nevals r = int (length (filter (\<lambda>i. \<not> fitness_valid (stub_env plain) wc i) offspring))
       \<and> nevals r + int (length (filter (fitness_valid (stub_env plain) wc) offspring))
           = int (length offspring))"
proof -
  let ?E = "stub_env plain" and ?A = "stub_args plain 2 1"
  let ?s = "the (start_of_generation ?E [0, 1] ?A world0 1)"
  have "case start_of_generation ?E [0, 1] ?A world0 1 of None \<Rightarrow> False | Some s \<Rightarrow> True"
    by code_simp
  then have s: "start_of_generation ?E [0, 1] ?A world0 1 = Some (fst ?s, snd ?s)"
    by (auto split: option.splits)
  have "fst (fst (gen_body ?E ?A 1 (fst ?s) (snd ?s))) = None"
    by code_simp
  then obtain l1 w1 where b: "gen_body ?E ?A 1 (fst ?s) (snd ?s) = ((None, l1), w1)"
    by (metis prod.collapse)
  from C6_nevals[OF b] s b show ?thesis by blast
qed

subsection \<open>C7: failure of a checkpoint\<close>



subsection \<open>C8: the manifest\<close>

text \<open>
  Claim C8 as stated: when all writes succeed, dumping \<open>n\<close> individuals gives a manifest
  whose mapping from file names to fitness values has exactly \<open>n\<close> entries. The mapping is
  keyed by the base name of what \<^verbatim>\<open>write\<close> returns, so two individuals written under
  one name share an entry: in the scenario \<open>same_name\<close> all writes succeed, two individuals
  are dumped, and the manifest has the single entry \<^verbatim>\<open>job.zip\<close>.
\<close>

theorem C8_counterexample:
  "fst (dump_population (stub_env same_name) [0, 1] (stub_cfg 0) None (world0\<lparr>tw_valid := [0, 1]\<rparr>))
     = None
 \<and> map (\<lambda>(p, m). (p, GAUDI_results m))
       (tw_files (snd (dump_population (stub_env same_name) [0, 1] (stub_cfg 0) None
                         (world0\<lparr>tw_valid := [0, 1]\<rparr>))))
     = [(''out/job.gaudi-output'', [(''job.zip'', [1])])]"
  by code_simp

text \<open>
  Claim C8, amended: when all writes succeed and \<^verbatim>\<open>write\<close> names the artifact after the
  index it is given (base name \<open>nm i\<close> for index \<open>i\<close>, different for the different indices
  below \<open>n\<close>), the manifest written to \<^verbatim>\<open><basepath>/<name>.gaudi-output\<close> maps exactly
  \<open>n\<close> distinct file names, \<open>nm 0\<close> to \<open>nm (n - 1)\<close>, to fitness values.
\<close>

theorem C8_amended:
  assumes "dump_population E pop c subdir w0 = (None, w1)"
    and "\<forall>ind k p wa fn wb. ind_write E ind k p wa = (Inr fn, wb) \<longrightarrow> basename fn = nm k"
    and "inj_on nm {..<length pop}"
  shows "\<exists>basepath results w.
           write_gaudi_output E (join basepath (name (cfg_output c) @ ''.gaudi-output''))
             \<lparr>GAUDI_objectives =
                map (\<lambda>obj. obj_name obj @ '' ('' @ obj_module obj @ '')'') (objectives c),
              GAUDI_results = results\<rparr> w = (None, w1)
         \<and> length results = length pop
         \<and> distinct (map fst results)
         \<and> set (map fst results) = nm ` {..<length pop}"
proof -
  from assms(1) obtain basepath results wa wb where
    wi: "write_individuals E basepath 0 pop [] wa = (Inr results, wb)" and
    wm: "write_gaudi_output E (join basepath (name (cfg_output c) @ ''.gaudi-output''))
             \<lparr>GAUDI_objectives =
                map (\<lambda>obj. obj_name obj @ '' ('' @ obj_module obj @ '')'') (objectives c),
              GAUDI_results = results\<rparr> wb = (None, w1)"
    by (auto simp: dump_population_def Let_def split: prod.splits sum.splits)
  from write_individuals_keys[OF wi assms(2)] have
    d: "distinct (map fst results)" and
    k: "set (map fst results) = nm ` {..<length pop}" by (simp_all add: lessThan_atLeast0)
  have "length results = card (set (map fst results))"
    using d by (metis distinct_card length_map)
  also have "\<dots> = card {..<length pop}" using k assms(3) by (simp add: card_image)
  finally have "length results = length pop" by simp
  with wm d k show ?thesis by blast
qed

text \<open>
  Two individuals written as \<^verbatim>\<open>job__0.zip\<close> and \<^verbatim>\<open>job__1.zip\<close>.
\<close>

theorem C8_amended_witness:
  "\<exists>w1. dump_population (stub_env plain) [0, 1] (stub_cfg 0) None (world0\<lparr>tw_valid := [0, 1]\<rparr>)
          = (None, w1)
   \<and> (\<forall>ind k p wa fn wb. ind_write (stub_env plain) ind k p wa = (Inr fn, wb)
          \<longrightarrow> basename fn = sc_artifact plain k)
   \<and> inj_on (sc_artifact plain) {..<length [0, 1 :: nat]}
   \<and> (\<exists>basepath results w.
         write_gaudi_output (stub_env plain)
           (join basepath (name (cfg_output (stub_cfg 0)) @ ''.gaudi-output''))
           \<lparr>GAUDI_objectives =
              map (\<lambda>obj. obj_name obj @ '' ('' @ obj_module obj @ '')'') (objectives (stub_cfg 0)),
            GAUDI_results = results\<rparr> w = (None, w1)
       \<and> length results = length [0, 1 :: nat]
       \<and> distinct (map fst results)
       \<and> set (map fst results) = sc_artifact plain ` {..<length [0, 1 :: nat]})"
proof -
  let ?E = "stub_env plain"
  let ?d = "dump_population ?E [0, 1] (stub_cfg 0) None (world0\<lparr>tw_valid := [0, 1]\<rparr>)"
  have "fst ?d = None" by code_simp
  then have d: "?d = (None, snd ?d)" by (metis prod.collapse)
  have n: "\<forall>ind k p wa fn wb. ind_write ?E ind k p wa = (Inr fn, wb)
             \<longrightarrow> basename fn = sc_artifact plain k"
    by (auto simp: stub_env_def plain_artifact)
  have "sc_artifact plain 0 \<noteq> sc_artifact plain 1" by code_simp
  then have i: "inj_on (sc_artifact plain) {..<length [0, 1 :: nat]}"
    by (auto simp: inj_on_def less_Suc_eq)
  from C8_amended[OF d n i] d n i show ?thesis by blast
qed

subsection \<open>C9: interruption declined\<close>

text \<open>
  Claim C9: if the body of generation \<open>g\<close> raises an exception that line 148 catches and
  the answer at the prompt is not \<^verbatim>\<open>y\<close> or \<^verbatim>\<open>yes\<close> (in any case), the call ends with
  \<^verbatim>\<open>SystemExit('Ok, bye!')\<close>: no population and logbook are returned, and the exception
  that leaves the function is not the one that was raised.
\<close>

theorem C9_cancelled:
  assumes "start_of_generation E pop A w0 g = Some (l, w)" and "1 \<le> g" and "g \<le> ngen A"
    and "gen_body E A g l w = ((Some e, lx), wx)"
    and "caught_148 e"
    and "raw_input E prompt (logger E (Error e) wx) = (Inr answer, wy)"
    and "lower answer \<notin> set [''y'', ''yes'']"
  shows "ea_mu_plus_lambda E pop A w0 = (Inl (SystemExit ''Ok, bye!''), population lx, wy)
       \<and> e \<noteq> SystemExit ''Ok, bye!''"
proof -
  have "interruption_handler E e lx wx = (Some (SystemExit ''Ok, bye!''), wy)"
    using assms(6,7) by (simp add: interruption_handler_def Let_def)
  then have "generations E A (g # [g + 1..ngen A]) l w = ((Raised (SystemExit ''Ok, bye!''), lx), wy)"
    using assms(4,5) by simp
  then have "ea_mu_plus_lambda E pop A w0 = (Inl (SystemExit ''Ok, bye!''), population lx, wy)"
    using ea_from_generation[OF assms(1-3)] by (simp add: leave_loop_def)
  moreover have "e \<noteq> SystemExit ''Ok, bye!''" using assms(5) by auto
  ultimately show ?thesis by simp
qed

text \<open>
  The evaluation of generation 2 raises and the answer is \<^verbatim>\<open>n\<close>.
\<close>

theorem C9_witness:
  "\<exists>l w e lx wx answer wy.
     start_of_generation (stub_env declined) [0, 1] (stub_args declined 3 0) world0 2 = Some (l, w)
   \<and> 1 \<le> (2::int) \<and> 2 \<le> ngen (stub_args declined 3 0)
   \<and> gen_body (stub_env declined) (stub_args declined 3 0) 2 l w = ((Some e, lx), wx)
   \<and> caught_148 e
   \<and> raw_input (stub_env declined) prompt (logger (stub_env declined) (Error e) wx) = (Inr answer, wy)
   \<and> lower answer \<notin> set [''y'', ''yes'']
   \<and> ea_mu_plus_lambda (stub_env declined) [0, 1] (stub_args declined 3 0) world0
       = (Inl (SystemExit ''Ok, bye!''), population lx, wy)
   \<and> e \<noteq> SystemExit ''Ok, bye!''"
proof -
  let ?E = "stub_env declined" and ?A = "stub_args declined 3 0"
  let ?s = "the (start_of_generation ?E [0, 1] ?A world0 2)"
  let ?b = "gen_body ?E ?A 2 (fst ?s) (snd ?s)"
  let ?e = "Exception ''evaluation failed''"
  let ?r = "raw_input ?E prompt (logger ?E (Error ?e) (snd ?b))"
  have "case start_of_generation ?E [0, 1] ?A world0 2 of None \<Rightarrow> False | Some s \<Rightarrow> True"
    by code_simp
  then have s: "start_of_generation ?E [0, 1] ?A world0 2 = Some (fst ?s, snd ?s)"
    by (auto split: option.splits)
  have g: "1 \<le> (2::int)" "2 \<le> ngen ?A" by (simp_all add: stub_args_def)
  have "fst (fst ?b) = Some ?e" by code_simp
  then have b: "?b = ((Some ?e, snd (fst ?b)), snd ?b)" by (metis prod.collapse)
  have c: "caught_148 ?e" by simp
  have "fst ?r = Inr ''n''" by (simp add: stub_env_def declined_def)
  then have r: "?r = (Inr ''n'', snd ?r)" by (metis prod.collapse)
  have a: "lower ''n'' \<notin> set [''y'', ''yes'']" by code_simp
  from C9_cancelled[OF s g b c r a] s g b c r a show ?thesis by blast
qed

subsection \<open>C10: periodic checkpoints\<close>




end
